theory Spec2Isabelle
  imports Main
begin

section \<open>The FHIR sample producer (sample/fhir-producer/producer.py)\<close>

text \<open>
  The producer connects to a Kafka broker, loads FHIR sample payloads from a directory
  and publishes them round-robin at a fixed interval. The broker client, the
  filesystem, the JSON parser, the environment and the builtin \<open>int\<close> are outside the
  program: they are fields of the record \<open>world\<close>, and every theorem holds for every
  behaviour of them unless it names a restriction.

  Python's \<open>str\<close> is modelled by \<open>string\<close>; a \<open>char\<close> stands for a code point below 256.
  A run is observed through the list of its events. The calls of the logger return
  without raising. The operator's interrupt is modelled where it can reach the \<open>try\<close>
  of \<open>main\<close>: in the send and in the sleep of an iteration of the loop.
\<close>

subsection \<open>Exceptions\<close>

text \<open>
  The program distinguishes three classes of exception: \<open>KafkaError\<close> (line 174),
  \<open>Exception\<close> (lines 35, 60, 176) and \<open>KeyboardInterrupt\<close> (line 181).
  \<open>KafkaError\<close> is an \<open>Exception\<close>; \<open>KeyboardInterrupt\<close> is a \<open>BaseException\<close> that is
  not an \<open>Exception\<close>, as is \<open>SystemExit\<close> (\<open>OtherBaseException\<close>). The string is the
  message, \<open>str(e)\<close>.
\<close>

datatype exn =
    KafkaError string
  | OtherException string
  | KeyboardInterrupt
  | OtherBaseException string

fun is_KafkaError :: "exn \<Rightarrow> bool" where
  "is_KafkaError (KafkaError _) = True"
| "is_KafkaError _ = False"

fun is_Exception :: "exn \<Rightarrow> bool" where
  "is_Exception (KafkaError _) = True"
| "is_Exception (OtherException _) = True"
| "is_Exception KeyboardInterrupt = False"
| "is_Exception (OtherBaseException _) = False"

subsection \<open>Values, log lines and observable events\<close>

text \<open>
  Python values as the program handles them: the payloads (\<open>str\<close>) and the literals of
  lines 67 to 122 (dictionaries with string keys in insertion order, lists, strings,
  integers, booleans).
\<close>

datatype pyval =
    PStr string
  | PInt int
  | PBool bool
  | PNone
  | PList "pyval list"
  | PDict "(string \<times> pyval) list"

datatype level = INFO | WARNING | ERROR

text \<open>One constructor for each log call of the source, with the values it formats.\<close>

datatype message =
    ConnectedToKafka                        \<comment> \<open>line 33\<close>
  | AttemptFailed nat nat exn               \<comment> \<open>line 36: attempt + 1, max_retries, e\<close>
  | SamplesDirMissing string                \<comment> \<open>line 48\<close>
  | LoadedSample string                     \<comment> \<open>line 59: file_path.name\<close>
  | ErrorLoading string string exn          \<comment> \<open>line 61: directory, file name, e\<close>
  | StartingProducer string                 \<comment> \<open>line 136\<close>
  | SamplesPath string                      \<comment> \<open>line 137\<close>
  | SendInterval int                        \<comment> \<open>line 138\<close>
  | AzureFhirUrl "string option"            \<comment> \<open>line 139\<close>
  | AzureTenantId "string option"           \<comment> \<open>line 140\<close>
  | UsingGeneratedSamples                   \<comment> \<open>line 149\<close>
  | LoadedCount nat                         \<comment> \<open>line 153\<close>
  | NoSamplesAvailable                      \<comment> \<open>line 159\<close>
  | SentTo string nat nat                   \<comment> \<open>line 172: topic, partition, offset\<close>
  | FailedToSend exn                        \<comment> \<open>line 175\<close>
  | UnexpectedSendError exn                 \<comment> \<open>line 177\<close>
  | StoppingProducer                        \<comment> \<open>line 182\<close>
  | ProducerStopped                         \<comment> \<open>line 185\<close>

text \<open>
  What a run does, in order: log lines, calls of \<open>time.sleep\<close>, calls of the
  \<open>KafkaProducer\<close> constructor (with the bootstrap servers), calls of \<open>producer.send\<close>
  (topic and value) and calls of \<open>producer.close\<close>.
\<close>

datatype event =
    Log level message
  | Sleep int
  | Connect string
  | Send string pyval
  | Close

subsection \<open>The outside world\<close>

datatype file_read = Content string | ReadError exn

text \<open>
  What the loader can meet at the samples path: \<open>Path.exists()\<close> returns \<open>False\<close>
  (\<open>Missing\<close>); it raises, as it does for an \<open>OSError\<close> such as a denied permission or
  an over-long name (\<open>StatFails\<close>); it returns \<open>True\<close> and iterating the glob raises
  before it gives an entry (\<open>ListingFails\<close>); or it returns \<open>True\<close> and the glob runs
  over the entries listed (\<open>Directory\<close>, with no entries for a path that is not a
  directory).
\<close>

datatype path_state =
    Missing
  | StatFails exn
  | ListingFails exn
  | Directory "(string \<times> file_read) list"

datatype send_outcome = Acked string nat nat | SendRaises exn

text \<open>
  \<^item> \<open>environ\<close>: the process environment after \<open>load_dotenv()\<close>;
  \<^item> \<open>int_of_str\<close>: the builtin \<open>int\<close> on a string (a \<open>ValueError\<close> is an \<open>Inl\<close>);
  \<^item> \<open>new_producer n servers\<close>: what the \<open>n\<close>-th call of the \<open>KafkaProducer\<close>
    constructor does, \<open>None\<close> for a connection, \<open>Some e\<close> for raising \<open>e\<close>;
  \<^item> \<open>filesystem path\<close>: what the existence check and the listing of the path give
    and, for a directory, its entries in listing order (files and directories alike),
    each with what \<open>open\<close> and \<open>f.read()\<close> give: the text, or the exception raised;
  \<^item> \<open>json_loads s\<close>: \<open>None\<close> when \<open>json.loads(s)\<close> returns, \<open>Some e\<close> when it raises;
  \<^item> \<open>send_get k topic value\<close>: what \<open>producer.send\<close> followed by
    \<open>future.get(timeout=10)\<close> and the success log does in iteration \<open>k\<close> of the loop;
  \<^item> \<open>sleep_interrupt k\<close>: what interrupts the sleep of iteration \<open>k\<close> of the loop,
    \<open>None\<close> when the sleep runs to its end.
\<close>

record world =
  environ :: "string \<Rightarrow> string option"
  int_of_str :: "string \<Rightarrow> exn + int"
  new_producer :: "nat \<Rightarrow> string \<Rightarrow> exn option"
  filesystem :: "string \<Rightarrow> path_state"
  json_loads :: "string \<Rightarrow> exn option"
  send_get :: "nat \<Rightarrow> string \<Rightarrow> pyval \<Rightarrow> send_outcome"
  sleep_interrupt :: "nat \<Rightarrow> exn option"

text \<open>\<open>os.getenv(name, default)\<close> and \<open>os.getenv(name)\<close>.\<close>

definition getenv_default :: "world \<Rightarrow> string \<Rightarrow> string \<Rightarrow> string" where
  "getenv_default w name dflt = (case environ w name of None \<Rightarrow> dflt | Some v \<Rightarrow> v)"

definition getenv :: "world \<Rightarrow> string \<Rightarrow> string option" where
  "getenv w name = environ w name"

text \<open>A computation's result together with the events it produced.\<close>

definition emit :: "event list \<Rightarrow> 'a \<times> event list \<Rightarrow> 'a \<times> event list" where
  "emit evs r = (fst r, evs @ snd r)"

subsection \<open>create_producer (lines 18 to 40)\<close>

definition max_retries :: nat where
  "max_retries = 10"

definition retry_delay :: int where
  "retry_delay = 5"

datatype producer = KafkaProducer

text \<open>
  The body of \<open>for attempt in range(max_retries)\<close> over the attempts still to run.
  \<open>Inr (Some p)\<close> is \<open>return producer\<close>, \<open>Inl e\<close> is an exception leaving the function,
  and \<open>Inr None\<close> is the end of the \<open>for\<close> loop without a \<open>return\<close> (Python then returns
  \<open>None\<close>). An exception that is not an \<open>Exception\<close> is not caught on line 35. The
  sleep of line 38 runs to its end.
\<close>

fun create_producer_loop ::
  "world \<Rightarrow> string \<Rightarrow> nat list \<Rightarrow> (exn + producer option) \<times> event list" where
  "create_producer_loop w servers [] = (Inr None, [])"
| "create_producer_loop w servers (attempt # rest) =
     (case new_producer w attempt servers of
        None \<Rightarrow> (Inr (Some KafkaProducer), [Connect servers, Log INFO ConnectedToKafka])
      | Some e \<Rightarrow>
          if is_Exception e then
            (if attempt < max_retries - 1 then
               emit [Connect servers,
                     Log WARNING (AttemptFailed (attempt + 1) max_retries e),
                     Sleep retry_delay]
                 (create_producer_loop w servers rest)
             else
               (Inl e, [Connect servers,
                        Log WARNING (AttemptFailed (attempt + 1) max_retries e)]))
          else (Inl e, [Connect servers]))"

definition create_producer :: "world \<Rightarrow> (exn + producer option) \<times> event list" where
  "create_producer w =
     create_producer_loop w
       (getenv_default w ''KAFKA_BOOTSTRAP_SERVERS'' ''localhost:9092'')
       [0..<max_retries]"

subsection \<open>The serialisers handed to the client (lines 27 and 28)\<close>

text \<open>
  \<open>json.dumps\<close> with its defaults: \<open>ensure_ascii=True\<close>, item separator \<open>', '\<close>, key
  separator \<open>': '\<close>. A character outside the printable ASCII range, a backslash and
  a double quote are escaped.
\<close>

definition hex_digit :: "nat \<Rightarrow> char" where
  "hex_digit n = ''0123456789abcdef'' ! (n mod 16)"

definition escape_char :: "char \<Rightarrow> string" where
  "escape_char c =
     (let n = (of_char c :: nat) in
      if n = 92 then [CHR 0x5C, CHR 0x5C]
      else if n = 34 then [CHR 0x5C, CHR 0x22]
      else if n = 8 then [CHR 0x5C, CHR ''b'']
      else if n = 12 then [CHR 0x5C, CHR ''f'']
      else if n = 10 then [CHR 0x5C, CHR ''n'']
      else if n = 13 then [CHR 0x5C, CHR ''r'']
      else if n = 9 then [CHR 0x5C, CHR ''t'']
      else if 32 \<le> n \<and> n \<le> 126 then [c]
      else [CHR 0x5C, CHR ''u'', CHR ''0'', CHR ''0'', hex_digit (n div 16), hex_digit (n mod 16)])"

definition encode_basestring_ascii :: "string \<Rightarrow> string" where
  "encode_basestring_ascii s = [CHR 0x22] @ concat (map escape_char s) @ [CHR 0x22]"

fun nat_repr :: "nat \<Rightarrow> string" where
  "nat_repr n =
     (if n < 10 then [''0123456789'' ! n]
      else nat_repr (n div 10) @ [''0123456789'' ! (n mod 10)])"

declare nat_repr.simps [simp del]

definition int_repr :: "int \<Rightarrow> string" where
  "int_repr i = (if i < 0 then CHR ''-'' # nat_repr (nat (- i)) else nat_repr (nat i))"

text \<open>\<open>sep.join(parts)\<close>.\<close>

fun join :: "string \<Rightarrow> string list \<Rightarrow> string" where
  "join sep [] = []"
| "join sep [x] = x"
| "join sep (x # y # ys) = x @ sep @ join sep (y # ys)"

fun json_dumps :: "pyval \<Rightarrow> string" where
  "json_dumps (PStr s) = encode_basestring_ascii s"
| "json_dumps (PInt i) = int_repr i"
| "json_dumps (PBool b) = (if b then ''true'' else ''false'')"
| "json_dumps PNone = ''null''"
| "json_dumps (PList xs) = ''['' @ join '', '' (map json_dumps xs) @ '']''"
| "json_dumps (PDict kvs) =
     ''{'' @ join '', '' (map (\<lambda>(k, v). encode_basestring_ascii k @ '': '' @ json_dumps v) kvs)
       @ ''}''"

text \<open>\<open>s.encode('utf-8')\<close> for code points below 256: one byte below 128, two above.\<close>

definition encode_utf8 :: "string \<Rightarrow> nat list" where
  "encode_utf8 s =
     concat (map (\<lambda>c. let n = (of_char c :: nat) in
                        if n < 128 then [n] else [192 + n div 64, 128 + n mod 64]) s)"

text \<open>Line 27: text is encoded as it is, anything else is dumped as JSON first.\<close>

definition value_serializer :: "pyval \<Rightarrow> nat list" where
  "value_serializer x =
     (case x of PStr s \<Rightarrow> encode_utf8 s | _ \<Rightarrow> encode_utf8 (json_dumps x))"

text \<open>Line 28: a key that is \<open>None\<close> or empty is sent as no key.\<close>

definition key_serializer :: "string option \<Rightarrow> nat list option" where
  "key_serializer x =
     (case x of None \<Rightarrow> None | Some s \<Rightarrow> if s \<noteq> [] then Some (encode_utf8 s) else None)"

subsection \<open>load_fhir_samples (lines 42 to 63)\<close>

text \<open>
  \<open>str.strip()\<close> removes leading and trailing whitespace, which for code points below
  256 is \<open>\t \n \v \f \r\<close>, \<open>0x1c\<close> to \<open>0x1f\<close>, the space, \<open>0x85\<close> and \<open>0xa0\<close>.
\<close>

definition is_space :: "char \<Rightarrow> bool" where
  "is_space c = ((of_char c :: nat) \<in> {9, 10, 11, 12, 13, 28, 29, 30, 31, 32, 133, 160})"

definition strip :: "string \<Rightarrow> string" where
  "strip s = rev (dropWhile is_space (rev (dropWhile is_space s)))"

text \<open>A file name matches the pattern \<open>*.json\<close> when it ends in \<open>.json\<close>.\<close>

definition glob_json :: "string \<Rightarrow> bool" where
  "glob_json name = (5 \<le> length name \<and> drop (length name - 5) name = ''.json'')"

text \<open>
  The \<open>for file_path in ...\<close> loop over the matching entries, with the list \<open>samples\<close>
  built so far. An exception that is not an \<open>Exception\<close> is not caught on line 60 and
  leaves the function.
\<close>

fun load_files ::
  "world \<Rightarrow> string \<Rightarrow> (string \<times> file_read) list \<Rightarrow> pyval list
     \<Rightarrow> (exn + pyval list) \<times> event list" where
  "load_files w dir [] samples = (Inr samples, [])"
| "load_files w dir ((name, rd) # rest) samples =
     (case rd of
        ReadError e \<Rightarrow>
          if is_Exception e then
            emit [Log ERROR (ErrorLoading dir name e)] (load_files w dir rest samples)
          else (Inl e, [])
      | Content text \<Rightarrow>
          let content = strip text in
          if content \<noteq> [] then
            (case json_loads w content of
               Some e \<Rightarrow>
                 if is_Exception e then
                   emit [Log ERROR (ErrorLoading dir name e)] (load_files w dir rest samples)
                 else (Inl e, [])
             | None \<Rightarrow>
                 emit [Log INFO (LoadedSample name)]
                   (load_files w dir rest (samples @ [PStr content])))
          else load_files w dir rest samples)"

text \<open>
  Lines 47 and 51 are outside the \<open>try\<close>: an exception of the existence check or of
  the glob leaves the function, whatever its class.
\<close>

definition load_fhir_samples :: "world \<Rightarrow> string \<Rightarrow> (exn + pyval list) \<times> event list" where
  "load_fhir_samples w samples_path =
     (case filesystem w samples_path of
        Missing \<Rightarrow> (Inr [], [Log WARNING (SamplesDirMissing samples_path)])
      | StatFails e \<Rightarrow> (Inl e, [])
      | ListingFails e \<Rightarrow> (Inl e, [])
      | Directory entries \<Rightarrow>
          load_files w samples_path (filter (\<lambda>entry. glob_json (fst entry)) entries) [])"

subsection \<open>generate_sample_fhir_resources (lines 65 to 122)\<close>

definition generate_sample_fhir_resources :: "pyval list" where
  "generate_sample_fhir_resources =
     [PDict
        [(''resourceType'', PStr ''Patient''),
         (''id'', PStr ''example-patient-1''),
         (''identifier'',
            PList [PDict [(''system'', PStr ''http://hospital.example.org/patients''),
                          (''value'', PStr ''12345'')]]),
         (''name'',
            PList [PDict [(''use'', PStr ''official''),
                          (''family'', PStr ''Doe''),
                          (''given'', PList [PStr ''John''])]]),
         (''gender'', PStr ''male''),
         (''birthDate'', PStr ''1990-01-01''),
         (''active'', PBool True)],
      PDict
        [(''resourceType'', PStr ''Observation''),
         (''id'', PStr ''example-observation-1''),
         (''status'', PStr ''final''),
         (''category'',
            PList [PDict [(''coding'',
              PList [PDict [(''system'',
                               PStr ''http://terminology.hl7.org/CodeSystem/observation-category''),
                            (''code'', PStr ''vital-signs''),
                            (''display'', PStr ''Vital Signs'')]])]]),
         (''code'',
            PDict [(''coding'',
              PList [PDict [(''system'', PStr ''http://loinc.org''),
                            (''code'', PStr ''8867-4''),
                            (''display'', PStr ''Heart rate'')]])]),
         (''subject'', PDict [(''reference'', PStr ''Patient/example-patient-1'')]),
         (''valueQuantity'',
            PDict [(''value'', PInt 72),
                   (''unit'', PStr ''beats/minute''),
                   (''system'', PStr ''http://unitsofmeasure.org''),
                   (''code'', PStr ''/min'')])]]"

subsection \<open>main (lines 124 to 185)\<close>

text \<open>What the lines before the loop leave behind for it.\<close>

record prepared =
  the_topic :: string
  the_interval :: int
  the_producer :: "producer option"
  the_samples :: "pyval list"

text \<open>
  Lines 125 to 153. An exception of \<open>int\<close>, of \<open>create_producer\<close> or of
  \<open>load_fhir_samples\<close> leaves \<open>main\<close>: these lines are outside the \<open>try\<close>.
\<close>

definition main_setup :: "world \<Rightarrow> (exn + prepared) \<times> event list" where
  "main_setup w =
     (let topic = getenv_default w ''KAFKA_TOPIC'' ''fhir-resources'';
          samples_path = getenv_default w ''FHIR_SAMPLES_PATH'' ''/app/samples''
      in case int_of_str w (getenv_default w ''SEND_INTERVAL_SECONDS'' ''10'') of
           Inl e \<Rightarrow> (Inl e, [])
         | Inr send_interval \<Rightarrow>
             let azure_tenant_id = getenv w ''AZURE_TENANT_ID'';
                 azure_client_id = getenv w ''AZURE_CLIENT_ID'';
                 azure_client_secret = getenv w ''AZURE_CLIENT_SECRET'';
                 azure_fhir_url = getenv w ''AZURE_FHIR_URL'';
                 azure_scope =
                   getenv_default w ''AZURE_SCOPE'' ''https://azurehealthcareapis.com/.default'';
                 started =
                   [Log INFO (StartingProducer topic),
                    Log INFO (SamplesPath samples_path),
                    Log INFO (SendInterval send_interval),
                    Log INFO (AzureFhirUrl azure_fhir_url),
                    Log INFO (AzureTenantId azure_tenant_id)]
             in (case create_producer w of
                  (Inl e, connecting) \<Rightarrow> (Inl e, started @ connecting)
                | (Inr producer, connecting) \<Rightarrow>
                    (case load_fhir_samples w samples_path of
                       (Inl e, loading) \<Rightarrow> (Inl e, started @ connecting @ loading)
                     | (Inr loaded, loading) \<Rightarrow>
                         let (fhir_samples, fallback) =
                               (if loaded = [] then
                                  (map (\<lambda>sample. PStr (json_dumps sample))
                                     generate_sample_fhir_resources,
                                   [Log INFO UsingGeneratedSamples])
                                else (loaded, []))
                         in (Inr \<lparr>the_topic = topic, the_interval = send_interval,
                                  the_producer = producer, the_samples = fhir_samples\<rparr>,
                             started @ connecting @ loading @ fallback @
                             [Log INFO (LoadedCount (length fhir_samples))]))))"

text \<open>
  \<open>time.sleep(secs)\<close> in iteration \<open>k\<close>: a negative length raises a \<open>ValueError\<close>,
  otherwise the sleep ends or is interrupted as the world says.
\<close>

definition time_sleep :: "world \<Rightarrow> nat \<Rightarrow> int \<Rightarrow> exn option" where
  "time_sleep w k secs =
     (if secs < 0 then Some (OtherException ''sleep length must be non-negative'')
      else sleep_interrupt w k)"

text \<open>
  Lines 169 to 172 in iteration \<open>k\<close>. When \<open>producer\<close> is \<open>None\<close> the attribute lookup
  \<open>producer.send\<close> raises an \<open>AttributeError\<close> and nothing is sent.
\<close>

definition producer_send ::
  "world \<Rightarrow> nat \<Rightarrow> producer option \<Rightarrow> string \<Rightarrow> pyval \<Rightarrow> send_outcome \<times> event list" where
  "producer_send w k p tp v =
     (case p of
        None \<Rightarrow> (SendRaises (OtherException ''AttributeError''), [])
      | Some _ \<Rightarrow> (send_get w k tp v, [Send tp v]))"

text \<open>Line 164.\<close>

definition select_sample :: "pyval list \<Rightarrow> nat \<Rightarrow> pyval" where
  "select_sample samples sample_index = samples ! (sample_index mod length samples)"

text \<open>Line 179, after the events \<open>evs\<close> of the iteration so far.\<close>

definition sleep_then ::
  "world \<Rightarrow> prepared \<Rightarrow> nat \<Rightarrow> nat \<Rightarrow> event list \<Rightarrow> (exn + nat) \<times> event list" where
  "sleep_then w st k sample_index evs =
     (case time_sleep w k (the_interval st) of
        None \<Rightarrow> (Inr sample_index, evs @ [Sleep (the_interval st)])
      | Some e \<Rightarrow> (Inl e, evs @ [Sleep (the_interval st)]))"

text \<open>
  One pass through the body of \<open>while True\<close> (lines 158 to 179), iteration \<open>k\<close>, with
  the cursor \<open>sample_index\<close>: \<open>Inr\<close> is the cursor for the next iteration, \<open>Inl e\<close> is
  the exception \<open>e\<close> leaving the loop.
\<close>

definition loop_iteration ::
  "world \<Rightarrow> prepared \<Rightarrow> nat \<Rightarrow> nat \<Rightarrow> (exn + nat) \<times> event list" where
  "loop_iteration w st k sample_index =
     (if the_samples st = [] then
        sleep_then w st k sample_index [Log WARNING NoSamplesAvailable]
      else
        let fhir_resource = select_sample (the_samples st) sample_index;
            sample_index = sample_index + 1
        in (case producer_send w k (the_producer st) (the_topic st) fhir_resource of
             (Acked tp part offs, sent) \<Rightarrow>
               sleep_then w st k sample_index (sent @ [Log INFO (SentTo tp part offs)])
           | (SendRaises e, sent) \<Rightarrow>
               if is_KafkaError e then
                 sleep_then w st k sample_index (sent @ [Log ERROR (FailedToSend e)])
               else if is_Exception e then
                 sleep_then w st k sample_index (sent @ [Log ERROR (UnexpectedSendError e)])
               else (Inl e, sent)))"

text \<open>
  The loop for at most \<open>fuel\<close> iterations from iteration \<open>k\<close>: \<open>Some e\<close> when the
  exception \<open>e\<close> left the loop, \<open>None\<close> when the loop is still running after \<open>fuel\<close>
  iterations. The loop has no \<open>break\<close>: only an exception ends it.
\<close>

fun send_loop ::
  "world \<Rightarrow> prepared \<Rightarrow> nat \<Rightarrow> nat \<Rightarrow> nat \<Rightarrow> exn option \<times> event list" where
  "send_loop w st 0 k sample_index = (None, [])"
| "send_loop w st (Suc fuel) k sample_index =
     (case loop_iteration w st k sample_index of
        (Inl e, evs) \<Rightarrow> (Some e, evs)
      | (Inr sample_index', evs) \<Rightarrow> emit evs (send_loop w st fuel (Suc k) sample_index'))"

datatype outcome = Running | Exited | Raised exn

text \<open>
  \<open>main\<close> observed for at most \<open>fuel\<close> iterations of the loop. \<open>Exited\<close> is the return of
  \<open>main\<close> after a \<open>KeyboardInterrupt\<close>; any other exception goes through the \<open>finally\<close>
  block and leaves \<open>main\<close>. \<open>close\<close> on a \<open>producer\<close> that is \<open>None\<close> raises an
  \<open>AttributeError\<close> in the \<open>finally\<close> block.
\<close>

definition main :: "nat \<Rightarrow> world \<Rightarrow> outcome \<times> event list" where
  "main fuel w =
     (case main_setup w of
        (Inl e, before) \<Rightarrow> (Raised e, before)
      | (Inr st, before) \<Rightarrow>
          (case send_loop w st fuel 0 0 of
             (None, looping) \<Rightarrow> (Running, before @ looping)
           | (Some e, looping) \<Rightarrow>
               let handler = (if e = KeyboardInterrupt then [Log INFO StoppingProducer] else [])
               in (case the_producer st of
                     None \<Rightarrow>
                       (Raised (OtherException ''AttributeError''), before @ looping @ handler)
                   | Some _ \<Rightarrow>
                       (if e = KeyboardInterrupt then Exited else Raised e,
                        before @ looping @ handler @ [Close, Log INFO ProducerStopped]))))"

subsection \<open>Notions used to state the properties\<close>

text \<open>
  The events of the failed connection attempts \<open>is\<close>, attempt \<open>i\<close> raising \<open>e i\<close>: the
  constructor call, the warning and the sleep before the next attempt.
\<close>

definition failed_attempts :: "string \<Rightarrow> (nat \<Rightarrow> exn) \<Rightarrow> nat list \<Rightarrow> event list" where
  "failed_attempts servers e is =
     concat (map (\<lambda>i. [Connect servers,
                        Log WARNING (AttemptFailed (i + 1) max_retries (e i)),
                        Sleep retry_delay]) is)"

text \<open>
  What loading one file raises, if anything: the error of \<open>open\<close> or \<open>read\<close>, or the
  error of \<open>json.loads\<close> on the trimmed content when that is not empty.
\<close>

fun load_failure :: "world \<Rightarrow> file_read \<Rightarrow> exn option" where
  "load_failure w (ReadError e) = Some e"
| "load_failure w (Content text) =
     (if strip text \<noteq> [] then json_loads w (strip text) else None)"

text \<open>
  A file counts as a valid sample when it can be read, its trimmed content is not empty
  and \<open>json.loads\<close> accepts that content.
\<close>

fun valid_sample :: "world \<Rightarrow> file_read \<Rightarrow> bool" where
  "valid_sample w (ReadError e) = False"
| "valid_sample w (Content text) = (strip text \<noteq> [] \<and> json_loads w (strip text) = None)"

fun trimmed :: "file_read \<Rightarrow> string" where
  "trimmed (ReadError e) = []"
| "trimmed (Content text) = strip text"

text \<open>The entries of a directory that match \<open>*.json\<close>, in listing order.\<close>

definition json_files :: "(string \<times> file_read) list \<Rightarrow> (string \<times> file_read) list" where
  "json_files entries = filter (\<lambda>entry. glob_json (fst entry)) entries"

text \<open>The trimmed contents of the valid samples among the entries, in listing order.\<close>

definition loaded_samples :: "world \<Rightarrow> (string \<times> file_read) list \<Rightarrow> pyval list" where
  "loaded_samples w entries =
     map (\<lambda>entry. PStr (trimmed (snd entry)))
       (filter (\<lambda>entry. valid_sample w (snd entry)) (json_files entries))"

text \<open>
  What loading one file logs: an error for a file that cannot be read or parsed, an
  info line for a valid sample, nothing for a file that is empty after trimming.
\<close>

fun file_events :: "world \<Rightarrow> string \<Rightarrow> string \<times> file_read \<Rightarrow> event list" where
  "file_events w dir (name, rd) =
     (case load_failure w rd of
        Some e \<Rightarrow> [Log ERROR (ErrorLoading dir name e)]
      | None \<Rightarrow> if valid_sample w rd then [Log INFO (LoadedSample name)] else [])"

text \<open>
  Every failure of reading or parsing a matching file is an \<open>Exception\<close>, as the errors
  of the filesystem and of the parser are (\<open>OSError\<close>, \<open>UnicodeDecodeError\<close>,
  \<open>JSONDecodeError\<close>, \<open>RecursionError\<close>).
\<close>

definition catchable :: "world \<Rightarrow> (string \<times> file_read) list \<Rightarrow> bool" where
  "catchable w entries =
     list_all (\<lambda>entry. case load_failure w (snd entry) of None \<Rightarrow> True | Some e \<Rightarrow> is_Exception e)
       (json_files entries)"

text \<open>The texts \<open>json.dumps\<close> gives for the two built-in resources.\<close>

definition default_patient_text :: string where
  \<open>default_patient_text =
     ''{"resourceType": "Patient", "id": "example-patient-1", "identifier": [{"system": "http://hospital.example.org/patients", "value": "12345"}], "name": [{"use": "official", "family": "Doe", "given": ["John"]}], "gender": "male", "birthDate": "1990-01-01", "active": true}''\<close>

definition default_observation_text :: string where
  \<open>default_observation_text =
     ''{"resourceType": "Observation", "id": "example-observation-1", "status": "final", "category": [{"coding": [{"system": "http://terminology.hl7.org/CodeSystem/observation-category", "code": "vital-signs", "display": "Vital Signs"}]}], "code": {"coding": [{"system": "http://loinc.org", "code": "8867-4", "display": "Heart rate"}]}, "subject": {"reference": "Patient/example-patient-1"}, "valueQuantity": {"value": 72, "unit": "beats/minute", "system": "http://unitsofmeasure.org", "code": "/min"}}''\<close>

text \<open>The keys of a dictionary, in order.\<close>

fun dict_keys :: "pyval \<Rightarrow> string list" where
  "dict_keys (PDict kvs) = map fst kvs"
| "dict_keys _ = []"

text \<open>\<open>isinstance(x, str)\<close>, and the text of a string.\<close>

fun is_str :: "pyval \<Rightarrow> bool" where
  "is_str (PStr s) = True"
| "is_str _ = False"

fun text_of :: "pyval \<Rightarrow> string" where
  "text_of (PStr s) = s"
| "text_of _ = []"

text \<open>The calls of \<open>producer.send\<close> in a run: topic and value, in order.\<close>

fun sent :: "event list \<Rightarrow> (string \<times> pyval) list" where
  "sent [] = []"
| "sent (Send tp v # evs) = (tp, v) # sent evs"
| "sent (ev # evs) = sent evs"

text \<open>
  Events that neither send nor close nor report an empty sample list: all that happens
  before the loop, and all that an iteration does besides sending.
\<close>

fun quiet :: "event \<Rightarrow> bool" where
  "quiet (Send tp v) = False"
| "quiet Close = False"
| "quiet (Log l m) = (m \<noteq> NoSamplesAvailable)"
| "quiet (Sleep n) = True"
| "quiet (Connect s) = True"

text \<open>The log line of lines 172, 175 or 177 for the outcome of a send.\<close>

fun outcome_log :: "send_outcome \<Rightarrow> event" where
  "outcome_log (Acked tp part offs) = Log INFO (SentTo tp part offs)"
| "outcome_log (SendRaises e) =
     Log ERROR (if is_KafkaError e then FailedToSend e else UnexpectedSendError e)"

text \<open>The outcome of a send is an acknowledgement or an \<open>Exception\<close>.\<close>

fun absorbed :: "send_outcome \<Rightarrow> bool" where
  "absorbed (Acked tp part offs) = True"
| "absorbed (SendRaises e) = is_Exception e"

text \<open>The names of the optional cloud-auth variables (lines 130 to 134).\<close>

definition azure_variables :: "string list" where
  "azure_variables =
     [''AZURE_TENANT_ID'', ''AZURE_CLIENT_ID'', ''AZURE_CLIENT_SECRET'',
      ''AZURE_FHIR_URL'', ''AZURE_SCOPE'']"

subsection \<open>A sample world\<close>

text \<open>
  One behaviour of the outside world, used to run the program on concrete inputs: no
  environment variable is set; \<open>int\<close> reads decimal digits; the broker refuses the
  first two connections; the samples directory holds a valid file ending in a newline,
  an empty file, a file that is not JSON and a file with another extension; the parser
  accepts text in braces; the send of iteration 1 fails; the operator interrupts the
  sleep of iteration 3.
\<close>

definition sample_int :: "string \<Rightarrow> exn + int" where
  "sample_int s =
     (if s \<noteq> [] \<and> list_all (\<lambda>c. c \<in> set ''0123456789'') s
      then Inr (int (foldl (\<lambda>a c. 10 * a + (of_char c - 48)) 0 s))
      else Inl (OtherException ''invalid literal for int()''))"

definition sample_json_loads :: "string \<Rightarrow> exn option" where
  "sample_json_loads s =
     (if s \<noteq> [] \<and> hd s = CHR ''{'' \<and> last s = CHR ''}'' then None
      else Some (OtherException ''Expecting value''))"

definition sample_world :: world where
  "sample_world =
     \<lparr>environ = (\<lambda>name. None),
      int_of_str = sample_int,
      new_producer = (\<lambda>n servers. if n < 2 then Some (KafkaError ''NoBrokersAvailable'') else None),
      filesystem =
        (\<lambda>path. if path = ''/app/samples''
                then Directory
                       [(''a.json'', Content ''{}\<newline>''),
                        (''b.json'', Content []),
                        (''c.json'', Content ''not json''),
                        (''notes.txt'', Content ''{}'')]
                else Missing),
      json_loads = sample_json_loads,
      send_get = (\<lambda>k tp v. if k = 1 then SendRaises (KafkaError ''timed out'') else Acked tp 0 k),
      sleep_interrupt = (\<lambda>k. if k = 3 then Some KeyboardInterrupt else None)\<rparr>"

text \<open>
  The same world without a samples directory, what the start-up leaves behind for the
  loop there, and the same world with one of the cloud-auth variables set.
\<close>

definition fallback_world :: world where
  "fallback_world = sample_world\<lparr>filesystem := \<lambda>path. Missing\<rparr>"

definition fallback_prepared :: prepared where
  "fallback_prepared =
     \<lparr>the_topic = ''fhir-resources'',
      the_interval = 10,
      the_producer = Some KafkaProducer,
      the_samples = [PStr default_patient_text, PStr default_observation_text]\<rparr>"

definition azure_environ :: "string \<Rightarrow> string option" where
  "azure_environ name =
     (if name = ''AZURE_FHIR_URL'' then Some ''https://example.azurehealthcareapis.com''
      else None)"

text \<open>The world without a samples directory where the operator interrupts the send of iteration 1.\<close>

definition interrupted_send_world :: world where
  "interrupted_send_world =
     fallback_world
       \<lparr>send_get := \<lambda>k tp v. if k = 1 then SendRaises KeyboardInterrupt else Acked tp 0 k\<rparr>"

section \<open>Properties\<close>

subsection \<open>Connection retry\<close>

lemma create_producer_loop_success:
  assumes "\<forall>i. a \<le> i \<and> i < k \<longrightarrow> new_producer w i s = Some (e i) \<and> is_Exception (e i)"
    and "new_producer w k s = None" and "a \<le> k" and "k < max_retries"
  shows "create_producer_loop w s [a..<max_retries] =
           (Inr (Some KafkaProducer),
            failed_attempts s e [a..<k] @ [Connect s, Log INFO ConnectedToKafka])"
  using assms
proof (induction "k - a" arbitrary: a)
  case 0
  then have "a = k" by simp
  with 0 show ?case by (simp add: upt_conv_Cons failed_attempts_def)
next
  case (Suc d)
  then have lt: "a < k" by simp
  have step: "create_producer_loop w s [Suc a..<max_retries] =
           (Inr (Some KafkaProducer),
            failed_attempts s e [Suc a..<k] @ [Connect s, Log INFO ConnectedToKafka])"
    using Suc.hyps(1)[of "Suc a"] Suc.hyps(2) Suc.prems by auto
  have fa: "new_producer w a s = Some (e a)" "is_Exception (e a)"
    using Suc.prems lt by auto
  have "a < max_retries - 1" using lt Suc.prems by simp
  moreover have "[a..<max_retries] = a # [Suc a..<max_retries]"
    using lt Suc.prems by (simp add: upt_conv_Cons)
  moreover have "[a..<k] = a # [Suc a..<k]" using lt by (simp add: upt_conv_Cons)
  ultimately show ?case using fa step by (simp add: emit_def failed_attempts_def)
qed

lemma create_producer_loop_exhausted:
  assumes "\<forall>i. a \<le> i \<and> i < max_retries \<longrightarrow>
             new_producer w i s = Some (e i) \<and> is_Exception (e i)"
    and "a < max_retries"
  shows "create_producer_loop w s [a..<max_retries] =
           (Inl (e (max_retries - 1)),
            failed_attempts s e [a..<max_retries - 1] @
            [Connect s,
             Log WARNING (AttemptFailed max_retries max_retries (e (max_retries - 1)))])"
  using assms
proof (induction "max_retries - 1 - a" arbitrary: a)
  case 0
  then have a: "a = max_retries - 1" by simp
  have "[a..<max_retries] = [a]" unfolding a by (simp add: max_retries_def)
  moreover have "new_producer w a s = Some (e a)" "is_Exception (e a)" using 0 by auto
  ultimately show ?case using a by (simp add: failed_attempts_def max_retries_def)
next
  case (Suc d)
  then have lt: "a < max_retries - 1" by simp
  have step: "create_producer_loop w s [Suc a..<max_retries] =
           (Inl (e (max_retries - 1)),
            failed_attempts s e [Suc a..<max_retries - 1] @
            [Connect s,
             Log WARNING (AttemptFailed max_retries max_retries (e (max_retries - 1)))])"
    using Suc.hyps(1)[of "Suc a"] Suc.hyps(2) Suc.prems lt by auto
  have fa: "new_producer w a s = Some (e a)" "is_Exception (e a)"
    using Suc.prems lt by auto
  have "[a..<max_retries] = a # [Suc a..<max_retries]"
    using lt by (simp add: upt_conv_Cons)
  moreover have "[a..<max_retries - 1] = a # [Suc a..<max_retries - 1]"
    using lt by (simp add: upt_conv_Cons)
  ultimately show ?case using fa step lt by (simp add: emit_def failed_attempts_def)
qed

text \<open>
  C1. Let the first \<open>k\<close> constructor calls raise the exceptions \<open>e 0\<close>, ..., \<open>e (k - 1)\<close>.
  If \<open>k < 10\<close> and call \<open>k\<close> connects, \<open>create_producer\<close> returns that connection
  after exactly \<open>k + 1\<close> attempts, with a warning and a sleep of 5 seconds after each
  failed one. If all of the first ten calls fail (\<open>k = 10\<close>), it makes exactly ten
  attempts, sleeps 5 seconds after each of the first nine, and raises the exception of
  the tenth without a further sleep or attempt.
\<close>

theorem create_producer_retry:
  assumes "s = getenv_default w ''KAFKA_BOOTSTRAP_SERVERS'' ''localhost:9092''"
    and "\<forall>i<k. new_producer w i s = Some (e i) \<and> is_Exception (e i)"
    and "k \<le> 10"
  shows "(k < 10 \<and> new_producer w k s = None \<longrightarrow>
            create_producer w =
              (Inr (Some KafkaProducer),
               failed_attempts s e [0..<k] @ [Connect s, Log INFO ConnectedToKafka]))
       \<and> (k = 10 \<longrightarrow>
            create_producer w =
              (Inl (e 9),
               failed_attempts s e [0..<9] @
               [Connect s, Log WARNING (AttemptFailed 10 10 (e 9))]))"
proof (intro conjI impI)
  assume "k < 10 \<and> new_producer w k s = None"
  then show "create_producer w =
              (Inr (Some KafkaProducer),
               failed_attempts s e [0..<k] @ [Connect s, Log INFO ConnectedToKafka])"
    using create_producer_loop_success[of 0 k w s e] assms
    by (simp add: create_producer_def max_retries_def)
next
  assume "k = 10"
  then show "create_producer w =
              (Inl (e 9),
               failed_attempts s e [0..<9] @
               [Connect s, Log WARNING (AttemptFailed 10 10 (e 9))])"
    using create_producer_loop_exhausted[of 0 w s e] assms
    by (simp add: create_producer_def max_retries_def)
qed

theorem create_producer_retry_witness:
  "create_producer sample_world =
     (Inr (Some KafkaProducer),
      [Connect ''localhost:9092'',
       Log WARNING (AttemptFailed 1 10 (KafkaError ''NoBrokersAvailable'')),
       Sleep 5,
       Connect ''localhost:9092'',
       Log WARNING (AttemptFailed 2 10 (KafkaError ''NoBrokersAvailable'')),
       Sleep 5,
       Connect ''localhost:9092'',
       Log INFO ConnectedToKafka])
   \<and> fst (create_producer (sample_world\<lparr>new_producer := \<lambda>n servers. Some (KafkaError ''down'')\<rparr>)) =
       Inl (KafkaError ''down'')
   \<and> length (filter (\<lambda>ev. ev = Connect ''localhost:9092'')
        (snd (create_producer (sample_world\<lparr>new_producer := \<lambda>n servers. Some (KafkaError ''down'')\<rparr>)))) = 10
   \<and> length (filter (\<lambda>ev. ev = Sleep 5)
        (snd (create_producer (sample_world\<lparr>new_producer := \<lambda>n servers. Some (KafkaError ''down'')\<rparr>)))) = 9"
proof -
  let ?s = "''localhost:9092''"
  let ?down = "sample_world\<lparr>new_producer := \<lambda>n servers. Some (KafkaError ''down'')\<rparr>"
  have s1: "?s = getenv_default sample_world ''KAFKA_BOOTSTRAP_SERVERS'' ''localhost:9092''"
    by (simp add: getenv_default_def sample_world_def)
  have f1: "\<forall>i<2. new_producer sample_world i ?s = Some (KafkaError ''NoBrokersAvailable'')
              \<and> is_Exception (KafkaError ''NoBrokersAvailable'')"
    by (simp add: sample_world_def)
  have ok: "(2::nat) < 10 \<and> new_producer sample_world 2 ?s = None"
    by (simp add: sample_world_def)
  have r1: "create_producer sample_world =
              (Inr (Some KafkaProducer),
               failed_attempts ?s (\<lambda>i. KafkaError ''NoBrokersAvailable'') [0..<2] @
               [Connect ?s, Log INFO ConnectedToKafka])"
    using create_producer_retry[OF s1 f1] ok by simp
  have s2: "?s = getenv_default ?down ''KAFKA_BOOTSTRAP_SERVERS'' ''localhost:9092''"
    by (simp add: getenv_default_def sample_world_def)
  have f2: "\<forall>i<10. new_producer ?down i ?s = Some (KafkaError ''down'')
              \<and> is_Exception (KafkaError ''down'')"
    by simp
  have r2: "create_producer ?down =
              (Inl (KafkaError ''down''),
               failed_attempts ?s (\<lambda>i. KafkaError ''down'') [0..<9] @
               [Connect ?s, Log WARNING (AttemptFailed 10 10 (KafkaError ''down''))])"
    using create_producer_retry[OF s2 f2] by simp
  have u2: "[0..<2] = [0, 1]" by (simp add: upt_conv_Cons)
  have u9: "[0..<9] = [0, 1, 2, 3, 4, 5, 6, 7, 8]" by (simp add: upt_conv_Cons)
  show ?thesis
    unfolding r1 r2 u2 u9
    by (simp add: failed_attempts_def max_retries_def retry_delay_def)
qed

subsection \<open>The sample loader\<close>

lemma load_files_eq:
  assumes "list_all (\<lambda>entry. case load_failure w (snd entry) of None \<Rightarrow> True
                                | Some e \<Rightarrow> is_Exception e) es"
  shows "load_files w dir es acc =
           (Inr (acc @ map (\<lambda>entry. PStr (trimmed (snd entry)))
                         (filter (\<lambda>entry. valid_sample w (snd entry)) es)),
            concat (map (file_events w dir) es))"
  using assms
proof (induction es arbitrary: acc)
  case Nil
  then show ?case by simp
next
  case (Cons entry es)
  obtain name rd where entry: "entry = (name, rd)" by (cases entry)
  have rest: "\<And>acc'. load_files w dir es acc' =
           (Inr (acc' @ map (\<lambda>entry. PStr (trimmed (snd entry)))
                         (filter (\<lambda>entry. valid_sample w (snd entry)) es)),
            concat (map (file_events w dir) es))"
    using Cons by simp
  show ?case
  proof (cases rd)
    case (ReadError e)
    then have "is_Exception e" using Cons.prems entry by simp
    then show ?thesis using ReadError entry rest
      by (simp add: emit_def)
  next
    case (Content raw)
    show ?thesis
    proof (cases "strip raw = []")
      case True
      then show ?thesis using Content entry rest by simp
    next
      case False
      show ?thesis
      proof (cases "json_loads w (strip raw)")
        case None
        then show ?thesis using Content entry rest False
          by (simp add: emit_def)
      next
        case (Some e)
        then have "is_Exception e" using Cons.prems entry Content False by simp
        then show ?thesis using Some Content entry rest False
          by (simp add: emit_def)
      qed
    qed
  qed
qed

lemma load_fhir_samples_directory:
  assumes "filesystem w path = Directory entries" and "catchable w entries"
  shows "load_fhir_samples w path =
           (Inr (loaded_samples w entries), concat (map (file_events w path) (json_files entries)))"
  using assms load_files_eq[of w "json_files entries" path "[]"]
  by (simp add: load_fhir_samples_def catchable_def loaded_samples_def json_files_def)

lemma strip_self_iff:
  assumes "raw \<noteq> []"
  shows "(strip raw = raw) = (\<not> is_space (hd raw) \<and> \<not> is_space (last raw))"
  by (metis append_butlast_last_id assms dropWhile_append3
    dropWhile_eq_self_iff hd_dropWhile hd_rev last_snoc rev.simps(1)
    rev_rev_ident strip_def)


text \<open>
  C3, amended. Where the existence check of the path and its listing succeed,
  \<open>load_fhir_samples\<close> does not raise when every read or parse failure is an
  \<open>Exception\<close>. A missing directory gives the empty list and one warning. For a
  directory it returns the trimmed contents of the valid samples among the \<open>*.json\<close>
  entries, in listing order, so as many elements as there are valid samples; each entry
  contributes independently of the others: an unreadable or unparsable file logs one
  error, a valid one logs one info line, and a file that is empty after trimming is
  skipped without any log line.
\<close>

theorem load_fhir_samples_never_raises:
  assumes "catchable w entries"
  shows "(filesystem w path = Missing \<longrightarrow>
            load_fhir_samples w path = (Inr [], [Log WARNING (SamplesDirMissing path)]))
       \<and> (filesystem w path = Directory entries \<longrightarrow>
            load_fhir_samples w path =
              (Inr (loaded_samples w entries),
               concat (map (file_events w path) (json_files entries)))
          \<and> length (loaded_samples w entries) =
              length (filter (\<lambda>entry. valid_sample w (snd entry)) (json_files entries)))"
proof (intro conjI impI)
  assume "filesystem w path = Missing"
  then show "load_fhir_samples w path = (Inr [], [Log WARNING (SamplesDirMissing path)])"
    by (simp add: load_fhir_samples_def)
next
  assume "filesystem w path = Directory entries"
  then show "load_fhir_samples w path =
              (Inr (loaded_samples w entries),
               concat (map (file_events w path) (json_files entries)))"
    using assms by (rule load_fhir_samples_directory)
next
  show "length (loaded_samples w entries) =
          length (filter (\<lambda>entry. valid_sample w (snd entry)) (json_files entries))"
    by (simp add: loaded_samples_def)
qed

lemma sample_strip: "strip ''{}\<newline>'' = ''{}''" "strip ''not json'' = ''not json''"
  "strip [] = []"
  by (simp_all add: strip_def is_space_def)

lemma sample_json_files:
  "json_files [(''a.json'', Content ''{}\<newline>''),
               (''b.json'', Content []),
               (''c.json'', Content ''not json''),
               (''notes.txt'', Content ''{}'')] =
   [(''a.json'', Content ''{}\<newline>''),
    (''b.json'', Content []),
    (''c.json'', Content ''not json'')]"
  by (simp add: json_files_def glob_json_def)

theorem load_fhir_samples_never_raises_witness:
  "load_fhir_samples sample_world ''/app/samples'' =
     (Inr [PStr ''{}''],
      [Log INFO (LoadedSample ''a.json''),
       Log ERROR (ErrorLoading ''/app/samples'' ''c.json'' (OtherException ''Expecting value''))])
   \<and> load_fhir_samples sample_world ''/data'' =
     (Inr [], [Log WARNING (SamplesDirMissing ''/data'')])"
proof -
  let ?entries = "[(''a.json'', Content ''{}\<newline>''),
                   (''b.json'', Content []),
                   (''c.json'', Content ''not json''),
                   (''notes.txt'', Content ''{}'')]"
  have fs: "filesystem sample_world ''/app/samples'' = Directory ?entries"
    by (simp add: sample_world_def)
  have missing: "filesystem sample_world ''/data'' = Missing"
    by (simp add: sample_world_def)
  have parse: "json_loads sample_world = sample_json_loads"
    by (simp add: sample_world_def)
  have c: "catchable sample_world ?entries"
    unfolding catchable_def sample_json_files
    by (simp add: sample_strip parse sample_json_loads_def)
  have "load_fhir_samples sample_world ''/app/samples'' =
          (Inr (loaded_samples sample_world ?entries),
           concat (map (file_events sample_world ''/app/samples'') (json_files ?entries)))"
    using load_fhir_samples_never_raises[OF c, of "''/app/samples''"] fs by blast
  moreover have "loaded_samples sample_world ?entries = [PStr ''{}'']"
    unfolding loaded_samples_def sample_json_files
    by (simp add: sample_strip parse sample_json_loads_def)
  moreover have "concat (map (file_events sample_world ''/app/samples'') (json_files ?entries)) =
      [Log INFO (LoadedSample ''a.json''),
       Log ERROR (ErrorLoading ''/app/samples'' ''c.json'' (OtherException ''Expecting value''))]"
    unfolding sample_json_files
    by (simp add: sample_strip parse sample_json_loads_def)
  moreover have "load_fhir_samples sample_world ''/data'' =
     (Inr [], [Log WARNING (SamplesDirMissing ''/data'')])"
    using load_fhir_samples_never_raises[OF c, of "''/data''"] missing by blast
  ultimately show ?thesis by simp
qed

text \<open>
  C3 as stated asks for an error line for every empty file, and for a result in every
  state of the directory. A directory whose only entry is an empty \<open>b.json\<close> is loaded
  without any log line; and when the existence check of the path raises a
  \<open>PermissionError\<close>, that exception leaves the loader.
\<close>

theorem empty_file_logs_nothing:
  "filesystem (sample_world\<lparr>filesystem := \<lambda>path. Directory [(''b.json'', Content [])]\<rparr>)
     ''/app/samples'' = Directory [(''b.json'', Content [])]
   \<and> load_fhir_samples
       (sample_world\<lparr>filesystem := \<lambda>path. Directory [(''b.json'', Content [])]\<rparr>)
       ''/app/samples'' = (Inr [], [])
   \<and> is_Exception (OtherException ''PermissionError'')
   \<and> load_fhir_samples
       (sample_world\<lparr>filesystem := \<lambda>path. StatFails (OtherException ''PermissionError'')\<rparr>)
       ''/app/samples'' = (Inl (OtherException ''PermissionError''), [])"
  by (simp add: load_fhir_samples_def glob_json_def sample_strip)

text \<open>
  C2, amended. For a readable \<open>*.json\<close> entry whose trimmed content is not empty and
  parses, the element appended at its place in the result is the trimmed text of the
  file, as a string. It equals the text read exactly when that text neither starts nor
  ends with whitespace.
\<close>

theorem loaded_sample_is_trimmed_text:
  assumes "filesystem w path = Directory (before @ (name, Content raw) # after)"
    and "glob_json name"
    and "strip raw \<noteq> []"
    and "json_loads w (strip raw) = None"
    and "catchable w (before @ after)"
  shows "fst (load_fhir_samples w path) =
           Inr (loaded_samples w before @ PStr (strip raw) # loaded_samples w after)
       \<and> (strip raw = raw) = (\<not> is_space (hd raw) \<and> \<not> is_space (last raw))"
proof
  have "catchable w (before @ (name, Content raw) # after)"
    using assms(2-5) by (simp add: catchable_def json_files_def)
  then have "load_fhir_samples w path =
      (Inr (loaded_samples w (before @ (name, Content raw) # after)),
       concat (map (file_events w path) (json_files (before @ (name, Content raw) # after))))"
    using assms(1) load_fhir_samples_directory by blast
  moreover have "loaded_samples w (before @ (name, Content raw) # after) =
      loaded_samples w before @ PStr (strip raw) # loaded_samples w after"
    using assms(2-4) by (simp add: loaded_samples_def json_files_def)
  ultimately show "fst (load_fhir_samples w path) =
           Inr (loaded_samples w before @ PStr (strip raw) # loaded_samples w after)"
    by simp
next
  have "raw \<noteq> []" using assms(3) by (auto simp: strip_def)
  then show "(strip raw = raw) = (\<not> is_space (hd raw) \<and> \<not> is_space (last raw))"
    by (rule strip_self_iff)
qed

theorem loaded_sample_is_trimmed_text_witness:
  "fst (load_fhir_samples sample_world ''/app/samples'') = Inr [PStr ''{}'']
   \<and> strip ''{}\<newline>'' \<noteq> ''{}\<newline>''"
proof -
  let ?after = "[(''b.json'', Content []),
                 (''c.json'', Content ''not json''),
                 (''notes.txt'', Content ''{}'')]"
  have fs: "filesystem sample_world ''/app/samples'' =
              Directory ([] @ (''a.json'', Content ''{}\<newline>'') # ?after)"
    by (simp add: sample_world_def)
  have g: "glob_json ''a.json''" by (simp add: glob_json_def)
  have ne: "strip ''{}\<newline>'' \<noteq> []" by (simp add: sample_strip)
  have parse: "json_loads sample_world = sample_json_loads"
    by (simp add: sample_world_def)
  have ok: "json_loads sample_world (strip ''{}\<newline>'') = None"
    by (simp add: sample_strip parse sample_json_loads_def)
  have c: "catchable sample_world ([] @ ?after)"
    by (simp add: catchable_def json_files_def glob_json_def sample_strip parse
        sample_json_loads_def)
  note t = loaded_sample_is_trimmed_text[OF fs g ne ok c]
  have "loaded_samples sample_world ?after = []"
    by (simp add: loaded_samples_def json_files_def glob_json_def sample_strip parse
        sample_json_loads_def)
  moreover have "loaded_samples sample_world [] = []"
    by (simp add: loaded_samples_def json_files_def)
  moreover have "is_space (last ''{}\<newline>'')" by (simp add: is_space_def)
  ultimately show ?thesis using t by (simp add: sample_strip)
qed

text \<open>
  C2 as stated asks for the text read. The file \<open>a.json\<close> of the sample world holds
  \<open>{}\<close> and a newline; the element loaded for it is \<open>{}\<close> without the newline.
\<close>

theorem raw_text_is_not_appended:
  "filesystem sample_world ''/app/samples'' =
     Directory [(''a.json'', Content ''{}\<newline>''),
                (''b.json'', Content []),
                (''c.json'', Content ''not json''),
                (''notes.txt'', Content ''{}'')]
   \<and> json_loads sample_world ''{}'' = None
   \<and> fst (load_fhir_samples sample_world ''/app/samples'') = Inr [PStr ''{}'']
   \<and> PStr ''{}'' \<noteq> PStr ''{}\<newline>''"
  by (simp add: sample_world_def sample_json_loads_def load_fhir_samples_def glob_json_def
      sample_strip emit_def)

subsection \<open>Facts about the start-up\<close>

lemma dumps_defaults:
  "map (\<lambda>sample. PStr (json_dumps sample)) generate_sample_fhir_resources =
     [PStr default_patient_text, PStr default_observation_text]"
  by (simp add: generate_sample_fhir_resources_def default_patient_text_def
      default_observation_text_def encode_basestring_ascii_def escape_char_def int_repr_def
      nat_repr.simps)

lemma sent_append: "sent (xs @ ys) = sent xs @ sent ys"
  by (induction xs rule: sent.induct) simp_all

lemma sent_quiet: "list_all quiet evs \<Longrightarrow> sent evs = []"
  by (induction evs rule: sent.induct) simp_all

lemma quiet_not_close: "list_all quiet evs \<Longrightarrow> Close \<notin> set evs"
  by (induction evs) auto

lemma quiet_not_empty_warning:
  "list_all quiet evs \<Longrightarrow> Log WARNING NoSamplesAvailable \<notin> set evs"
  by (induction evs) auto

lemma create_producer_loop_quiet: "list_all quiet (snd (create_producer_loop w s xs))"
  by (induction xs) (auto simp: emit_def split: option.splits)

lemma create_producer_loop_not_None:
  "xs \<noteq> [] \<Longrightarrow> last xs = max_retries - 1 \<Longrightarrow> fst (create_producer_loop w s xs) \<noteq> Inr None"
proof (induction xs)
  case Nil
  then show ?case by simp
next
  case (Cons a xs)
  show ?case
  proof (cases "xs = []")
    case True
    then show ?thesis using Cons.prems by (auto split: option.splits)
  next
    case False
    then show ?thesis using Cons by (auto simp: emit_def split: option.splits)
  qed
qed

lemma create_producer_not_None: "fst (create_producer w) \<noteq> Inr None"
  unfolding create_producer_def
  by (rule create_producer_loop_not_None) (simp_all add: max_retries_def)

lemma create_producer_quiet: "list_all quiet (snd (create_producer w))"
  by (simp add: create_producer_def create_producer_loop_quiet)

lemma load_files_quiet: "list_all quiet (snd (load_files w dir es acc))"
proof (induction es arbitrary: acc)
  case Nil
  then show ?case by simp
next
  case (Cons entry es)
  obtain name rd where "entry = (name, rd)" by (cases entry)
  then show ?case using Cons
    by (cases rd) (auto simp: emit_def Let_def split: option.splits)
qed

lemma load_fhir_samples_quiet: "list_all quiet (snd (load_fhir_samples w path))"
  by (auto simp: load_fhir_samples_def load_files_quiet split: path_state.splits)

lemma load_files_text:
  "load_files w dir es acc = (Inr samples, evs) \<Longrightarrow> list_all is_str acc \<Longrightarrow>
     list_all is_str samples"
proof (induction es arbitrary: acc evs)
  case Nil
  then show ?case by simp
next
  case (Cons entry es)
  obtain name rd where entry: "entry = (name, rd)" by (cases entry)
  show ?case
  proof (cases rd)
    case (ReadError e)
    then show ?thesis using Cons entry
      by (cases "load_files w dir es acc") (auto simp: emit_def split: if_splits)
  next
    case (Content raw)
    show ?thesis
    proof (cases "strip raw = []")
      case True
      then show ?thesis using Cons entry Content by simp
    next
      case False
      show ?thesis
      proof (cases "json_loads w (strip raw)")
        case None
        then show ?thesis using Cons.prems Cons.IH[of "acc @ [PStr (strip raw)]"] entry Content False
          by (cases "load_files w dir es (acc @ [PStr (strip raw)])") (auto simp: emit_def)
      next
        case (Some e)
        then show ?thesis using Cons entry Content False
          by (cases "load_files w dir es acc") (auto simp: emit_def split: if_splits)
      qed
    qed
  qed
qed

lemma load_fhir_samples_text:
  "load_fhir_samples w path = (Inr samples, evs) \<Longrightarrow> list_all is_str samples"
  by (auto simp: load_fhir_samples_def split: path_state.splits dest: load_files_text)

text \<open>What a completed start-up has done.\<close>

lemma main_setup_Inr:
  assumes "main_setup w = (Inr st, evs)"
  shows "\<exists>interval connecting loaded loading.
           int_of_str w (getenv_default w ''SEND_INTERVAL_SECONDS'' ''10'') = Inr interval
         \<and> create_producer w = (Inr (the_producer st), connecting)
         \<and> load_fhir_samples w (getenv_default w ''FHIR_SAMPLES_PATH'' ''/app/samples'') =
             (Inr loaded, loading)
         \<and> st = \<lparr>the_topic = getenv_default w ''KAFKA_TOPIC'' ''fhir-resources'',
                  the_interval = interval,
                  the_producer = the_producer st,
                  the_samples =
                    (if loaded = []
                     then map (\<lambda>sample. PStr (json_dumps sample)) generate_sample_fhir_resources
                     else loaded)\<rparr>"
proof (cases "int_of_str w (getenv_default w ''SEND_INTERVAL_SECONDS'' ''10'')")
  case (Inl e)
  then show ?thesis using assms by (simp add: main_setup_def)
next
  case (Inr interval)
  note i = Inr
  obtain r1 connecting where c: "create_producer w = (r1, connecting)"
    by (cases "create_producer w")
  show ?thesis
  proof (cases r1)
    case (Inl e)
    then show ?thesis using assms i c by (simp add: main_setup_def Let_def)
  next
    case (Inr p)
    note p = Inr
    obtain r2 loading where
      l: "load_fhir_samples w (getenv_default w ''FHIR_SAMPLES_PATH'' ''/app/samples'') =
            (r2, loading)"
      by (cases "load_fhir_samples w (getenv_default w ''FHIR_SAMPLES_PATH'' ''/app/samples'')")
    show ?thesis
    proof (cases r2)
      case (Inl e)
      then show ?thesis using assms i c p l by (simp add: main_setup_def Let_def)
    next
      case (Inr loaded)
      have "st = \<lparr>the_topic = getenv_default w ''KAFKA_TOPIC'' ''fhir-resources'',
                  the_interval = interval,
                  the_producer = p,
                  the_samples =
                    (if loaded = []
                     then map (\<lambda>sample. PStr (json_dumps sample)) generate_sample_fhir_resources
                     else loaded)\<rparr>"
        using assms i c p l Inr
        by (cases "loaded = []") (simp_all add: main_setup_def Let_def)
      then show ?thesis using i c p l Inr by simp
    qed
  qed
qed

lemma main_setup_quiet: "list_all quiet (snd (main_setup w))"
proof (cases "int_of_str w (getenv_default w ''SEND_INTERVAL_SECONDS'' ''10'')")
  case (Inl e)
  then show ?thesis by (simp add: main_setup_def)
next
  case (Inr interval)
  note i = Inr
  obtain r1 connecting where c: "create_producer w = (r1, connecting)"
    by (cases "create_producer w")
  have qc: "list_all quiet connecting" using create_producer_quiet[of w] c by simp
  show ?thesis
  proof (cases r1)
    case (Inl e)
    then show ?thesis using i c qc by (simp add: main_setup_def Let_def)
  next
    case (Inr p)
    note p = Inr
    obtain r2 loading where
      l: "load_fhir_samples w (getenv_default w ''FHIR_SAMPLES_PATH'' ''/app/samples'') =
            (r2, loading)"
      by (cases "load_fhir_samples w (getenv_default w ''FHIR_SAMPLES_PATH'' ''/app/samples'')")
    have ql: "list_all quiet loading"
      using load_fhir_samples_quiet[of w "getenv_default w ''FHIR_SAMPLES_PATH'' ''/app/samples''"] l
      by simp
    show ?thesis
    proof (cases r2)
      case (Inl e)
      then show ?thesis using i c p l qc ql by (simp add: main_setup_def Let_def)
    next
      case (Inr loaded)
      then show ?thesis using i c p l qc ql
        by (cases "loaded = []") (simp_all add: main_setup_def Let_def)
    qed
  qed
qed

lemma main_setup_producer:
  assumes "main_setup w = (Inr st, evs)"
  shows "the_producer st = Some KafkaProducer"
proof -
  obtain connecting where "create_producer w = (Inr (the_producer st), connecting)"
    using main_setup_Inr[OF assms] by blast
  then have "the_producer st \<noteq> None" using create_producer_not_None[of w] by auto
  then show ?thesis by (cases "the_producer st") (auto intro: producer.exhaust)
qed

lemma main_setup_samples:
  assumes "main_setup w = (Inr st, evs)"
  shows "the_samples st \<noteq> []" and "list_all is_str (the_samples st)"
proof -
  obtain interval loaded loading where
    l: "load_fhir_samples w (getenv_default w ''FHIR_SAMPLES_PATH'' ''/app/samples'') =
             (Inr loaded, loading)"
    and st: "st = \<lparr>the_topic = getenv_default w ''KAFKA_TOPIC'' ''fhir-resources'',
                  the_interval = interval,
                  the_producer = the_producer st,
                  the_samples =
                    (if loaded = []
                     then map (\<lambda>sample. PStr (json_dumps sample)) generate_sample_fhir_resources
                     else loaded)\<rparr>"
    using main_setup_Inr[OF assms] by blast
  have s: "the_samples st = (if loaded = []
                     then map (\<lambda>sample. PStr (json_dumps sample)) generate_sample_fhir_resources
                     else loaded)"
    by (subst st) simp
  show "the_samples st \<noteq> []"
    unfolding s by (simp add: generate_sample_fhir_resources_def)
  show "list_all is_str (the_samples st)"
    unfolding s using load_fhir_samples_text[OF l] by (simp add: list_all_iff)
qed

subsection \<open>Facts about the loop\<close>

lemma sleep_then_cases:
  "sleep_then w st k i evs =
     (case time_sleep w k (the_interval st) of None \<Rightarrow> Inr i | Some e \<Rightarrow> Inl e,
      evs @ [Sleep (the_interval st)])"
  by (simp add: sleep_then_def split: option.splits)

text \<open>An iteration with samples and a producer: the send, then the log line and the sleep.\<close>

lemma loop_iteration_absorbed:
  assumes "the_samples st \<noteq> []" and "the_producer st = Some p"
    and "absorbed (send_get w k (the_topic st) (select_sample (the_samples st) i))"
  shows "loop_iteration w st k i =
           sleep_then w st k (Suc i)
             [Send (the_topic st) (select_sample (the_samples st) i),
              outcome_log (send_get w k (the_topic st) (select_sample (the_samples st) i))]"
proof (cases "send_get w k (the_topic st) (select_sample (the_samples st) i)")
  case (Acked tp part offs)
  then show ?thesis using assms
    by (simp add: loop_iteration_def producer_send_def Let_def)
next
  case (SendRaises e)
  then show ?thesis using assms
    by (simp add: loop_iteration_def producer_send_def Let_def)
qed

lemma loop_iteration_shape:
  assumes "the_samples st \<noteq> []" and "the_producer st = Some p"
  shows "\<exists>rest. snd (loop_iteration w st k i) =
                  Send (the_topic st) (select_sample (the_samples st) i) # rest
               \<and> list_all quiet rest"
    and "fst (loop_iteration w st k i) = Inr j \<Longrightarrow> j = Suc i"
proof -
  let ?o = "send_get w k (the_topic st) (select_sample (the_samples st) i)"
  show "\<exists>rest. snd (loop_iteration w st k i) =
                  Send (the_topic st) (select_sample (the_samples st) i) # rest
               \<and> list_all quiet rest"
  proof (cases ?o)
    case (Acked tp part offs)
    then show ?thesis using assms
      by (simp add: loop_iteration_def producer_send_def Let_def sleep_then_cases)
  next
    case (SendRaises e)
    then show ?thesis using assms
      by (simp add: loop_iteration_def producer_send_def Let_def sleep_then_cases)
  qed
  show "fst (loop_iteration w st k i) = Inr j \<Longrightarrow> j = Suc i"
  proof (cases ?o)
    case (Acked tp part offs)
    assume "fst (loop_iteration w st k i) = Inr j"
    then show ?thesis using assms Acked
      by (simp add: loop_iteration_def producer_send_def Let_def sleep_then_cases
          split: option.splits)
  next
    case (SendRaises e)
    assume "fst (loop_iteration w st k i) = Inr j"
    then show ?thesis using assms SendRaises
      by (simp add: loop_iteration_def producer_send_def Let_def sleep_then_cases
          split: option.splits if_splits)
  qed
qed

lemma upt_shift: "f i # map f [Suc i..<Suc i + m] = map f [i..<i + Suc m]"
  by (simp add: upt_conv_Cons del: upt_Suc)

text \<open>The sends of the loop follow the cursor, whenever and however the loop ends.\<close>

lemma send_loop_sent:
  assumes "the_samples st \<noteq> []" and "the_producer st = Some p"
  shows "\<exists>m\<le>fuel. sent (snd (send_loop w st fuel k i)) =
           map (\<lambda>j. (the_topic st, select_sample (the_samples st) j)) [i..<i + m]
         \<and> (fst (send_loop w st fuel k i) = None \<longrightarrow> m = fuel)"
proof (induction fuel arbitrary: k i)
  case 0
  show ?case by simp
next
  case (Suc fuel)
  obtain r evs where it: "loop_iteration w st k i = (r, evs)"
    by (cases "loop_iteration w st k i")
  obtain rest where evs: "evs = Send (the_topic st) (select_sample (the_samples st) i) # rest"
    and q: "list_all quiet rest"
    using loop_iteration_shape(1)[OF assms, of w k i] it by auto
  have s1: "sent evs = [(the_topic st, select_sample (the_samples st) i)]"
    using evs q by (simp add: sent_quiet)
  show ?case
  proof (cases r)
    case (Inl e)
    have f: "send_loop w st (Suc fuel) k i = (Some e, evs)"
      using it Inl by simp
    show ?thesis unfolding f using s1 by (intro exI[of _ 1]) simp
  next
    case (Inr j)
    then have j: "j = Suc i" using loop_iteration_shape(2)[OF assms, of w k i j] it by simp
    from Suc.IH[of "Suc k" "Suc i"] obtain m where mm: "m \<le> fuel \<and>
        sent (snd (send_loop w st fuel (Suc k) (Suc i))) =
           map (\<lambda>j. (the_topic st, select_sample (the_samples st) j)) [Suc i..<Suc i + m] \<and>
        (fst (send_loop w st fuel (Suc k) (Suc i)) = None \<longrightarrow> m = fuel)" ..
    note m = mm[THEN conjunct1] and sm = mm[THEN conjunct2, THEN conjunct1]
      and fm = mm[THEN conjunct2, THEN conjunct2]
    have f: "send_loop w st (Suc fuel) k i = emit evs (send_loop w st fuel (Suc k) (Suc i))"
      using it Inr j by simp
    have "sent (snd (emit evs (send_loop w st fuel (Suc k) (Suc i)))) =
        (the_topic st, select_sample (the_samples st) i) #
        map (\<lambda>j. (the_topic st, select_sample (the_samples st) j)) [Suc i..<Suc i + m]"
      using s1 sm by (simp only: emit_def snd_conv sent_append append_Cons append_Nil)
    also have "\<dots> =
        map (\<lambda>j. (the_topic st, select_sample (the_samples st) j)) [i..<i + Suc m]"
      by (rule upt_shift)
    finally have "sent (snd (emit evs (send_loop w st fuel (Suc k) (Suc i)))) =
        map (\<lambda>j. (the_topic st, select_sample (the_samples st) j)) [i..<i + Suc m]" .
    moreover have "fst (emit evs (send_loop w st fuel (Suc k) (Suc i))) = None \<longrightarrow>
        Suc m = Suc fuel"
      using fm by (simp add: emit_def)
    ultimately show ?thesis unfolding f using m by (intro exI[of _ "Suc m"]) blast
  qed
qed

lemma send_loop_quiet_but_sends:
  assumes "the_samples st \<noteq> []" and "the_producer st = Some p"
  shows "Close \<notin> set (snd (send_loop w st fuel k i))
       \<and> Log WARNING NoSamplesAvailable \<notin> set (snd (send_loop w st fuel k i))"
proof (induction fuel arbitrary: k i)
  case 0
  show ?case by simp
next
  case (Suc fuel)
  obtain r evs where it: "loop_iteration w st k i = (r, evs)"
    by (cases "loop_iteration w st k i")
  obtain rest where evs: "evs = Send (the_topic st) (select_sample (the_samples st) i) # rest"
    and q: "list_all quiet rest"
    using loop_iteration_shape(1)[OF assms, of w k i] it by auto
  have e: "Close \<notin> set evs \<and> Log WARNING NoSamplesAvailable \<notin> set evs"
    using evs quiet_not_close[OF q] quiet_not_empty_warning[OF q] by simp
  show ?case
  proof (cases r)
    case (Inl e)
    then show ?thesis using it e by simp
  next
    case (Inr j)
    then show ?thesis using it e Suc.IH[of "Suc k" j] by (simp add: emit_def)
  qed
qed

text \<open>The result and the sends of \<open>main\<close> in terms of the start-up and the loop.\<close>

lemma main_failed_setup:
  assumes "main_setup w = (Inl e, before)"
  shows "main fuel w = (Raised e, before)"
  using assms by (simp add: main_def)

lemma main_running:
  assumes "main_setup w = (Inr st, before)" and "send_loop w st fuel 0 0 = (None, looping)"
  shows "main fuel w = (Running, before @ looping)"
  using assms by (simp add: main_def)

lemma main_left_loop:
  assumes "main_setup w = (Inr st, before)" and "send_loop w st fuel 0 0 = (Some e, looping)"
  shows "main fuel w =
           (if e = KeyboardInterrupt then Exited else Raised e,
            before @ looping @ (if e = KeyboardInterrupt then [Log INFO StoppingProducer] else [])
              @ [Close, Log INFO ProducerStopped])"
  using assms main_setup_producer[OF assms(1)] by (simp add: main_def Let_def)

lemma main_sent:
  assumes "main_setup w = (Inr st, before)"
  shows "sent (snd (main fuel w)) = sent (snd (send_loop w st fuel 0 0))"
proof -
  obtain r looping where l: "send_loop w st fuel 0 0 = (r, looping)"
    by (cases "send_loop w st fuel 0 0")
  have b: "sent before = []" using main_setup_quiet[of w] assms by (simp add: sent_quiet)
  show ?thesis
  proof (cases r)
    case None
    then show ?thesis using main_running[OF assms, of fuel looping] l b
      by (simp add: sent_append)
  next
    case (Some e)
    then show ?thesis using main_left_loop[OF assms, of fuel e looping] l b
      by (simp add: sent_append)
  qed
qed

subsection \<open>The fallback payloads\<close>

text \<open>
  C4. When start-up completes and the loader returned the empty list, the samples the
  loop uses are the texts of the built-in Patient and Observation resources, in this
  order; the two resources have the keys the specification lists. The loader returns the
  empty list when the directory is missing, when it has no entry, and when none of its
  \<open>*.json\<close> entries is a valid sample.
\<close>

theorem fallback_payloads:
  assumes "main_setup w = (Inr st, evs)"
    and "path = getenv_default w ''FHIR_SAMPLES_PATH'' ''/app/samples''"
  shows "(fst (load_fhir_samples w path) = Inr [] \<longrightarrow>
            the_samples st = [PStr default_patient_text, PStr default_observation_text])
       \<and> (filesystem w path = Missing \<or> filesystem w path = Directory [] \<or>
            (filesystem w path = Directory entries \<and> catchable w entries \<and>
             filter (\<lambda>entry. valid_sample w (snd entry)) (json_files entries) = []) \<longrightarrow>
            fst (load_fhir_samples w path) = Inr [])
       \<and> map dict_keys generate_sample_fhir_resources =
           [[''resourceType'', ''id'', ''identifier'', ''name'', ''gender'', ''birthDate'',
             ''active''],
            [''resourceType'', ''id'', ''status'', ''category'', ''code'', ''subject'',
             ''valueQuantity'']]"
proof (intro conjI impI)
  assume empty: "fst (load_fhir_samples w path) = Inr []"
  obtain interval loaded loading where
    l: "load_fhir_samples w path = (Inr loaded, loading)"
    and st: "st = \<lparr>the_topic = getenv_default w ''KAFKA_TOPIC'' ''fhir-resources'',
                  the_interval = interval,
                  the_producer = the_producer st,
                  the_samples =
                    (if loaded = []
                     then map (\<lambda>sample. PStr (json_dumps sample)) generate_sample_fhir_resources
                     else loaded)\<rparr>"
    using main_setup_Inr[OF assms(1)] assms(2) by blast
  have "loaded = []" using empty l by simp
  then have "the_samples st =
      map (\<lambda>sample. PStr (json_dumps sample)) generate_sample_fhir_resources"
    by (subst st) simp
  then show "the_samples st = [PStr default_patient_text, PStr default_observation_text]"
    by (simp only: dumps_defaults)
next
  assume d: "filesystem w path = Missing \<or> filesystem w path = Directory [] \<or>
            (filesystem w path = Directory entries \<and> catchable w entries \<and>
             filter (\<lambda>entry. valid_sample w (snd entry)) (json_files entries) = [])"
  then consider "filesystem w path = Missing" | "filesystem w path = Directory []"
    | "filesystem w path = Directory entries" "catchable w entries"
      "filter (\<lambda>entry. valid_sample w (snd entry)) (json_files entries) = []"
    by blast
  then show "fst (load_fhir_samples w path) = Inr []"
  proof cases
    case 1
    then show ?thesis by (simp add: load_fhir_samples_def)
  next
    case 2
    then show ?thesis by (simp add: load_fhir_samples_def)
  next
    case 3
    then show ?thesis
      using load_fhir_samples_directory[of w path entries]
      by (simp add: loaded_samples_def)
  qed
next
  show "map dict_keys generate_sample_fhir_resources =
           [[''resourceType'', ''id'', ''identifier'', ''name'', ''gender'', ''birthDate'',
             ''active''],
            [''resourceType'', ''id'', ''status'', ''category'', ''code'', ''subject'',
             ''valueQuantity'']]"
    by (simp add: generate_sample_fhir_resources_def)
qed

subsection \<open>Round-robin selection\<close>

text \<open>
  C5. For every non-empty sample list of length \<open>N\<close>, the calls of \<open>producer.send\<close> the
  loop makes, in order, carry the samples at the indices 0, 1, 2, ... modulo \<open>N\<close>, to the
  configured topic: call \<open>i\<close> sends sample \<open>i mod N\<close>. While the loop is running
  there is one call for each iteration. An iteration that ends hands the cursor
  increased by one to the next, and the selection has period \<open>N\<close>. The sends of a run
  of \<open>main\<close> are those of its loop.
\<close>

theorem round_robin:
  assumes "the_samples st \<noteq> []" and "the_producer st = Some p"
  shows "sent (snd (send_loop w st fuel 0 0)) =
           map (\<lambda>i. (the_topic st, the_samples st ! (i mod length (the_samples st))))
             [0..<length (sent (snd (send_loop w st fuel 0 0)))]
       \<and> (fst (send_loop w st fuel 0 0) = None \<longrightarrow>
            length (sent (snd (send_loop w st fuel 0 0))) = fuel)
       \<and> (fst (loop_iteration w st k i) = Inr j \<longrightarrow> j = i + 1)
       \<and> select_sample (the_samples st) i =
           select_sample (the_samples st) (i + length (the_samples st))
       \<and> (main_setup w = (Inr st, evs) \<longrightarrow>
            sent (snd (main fuel w)) = sent (snd (send_loop w st fuel 0 0)))"
proof -
  from send_loop_sent[OF assms, of fuel w 0 0] obtain m where mm: "m \<le> fuel \<and>
      sent (snd (send_loop w st fuel 0 0)) =
        map (\<lambda>j. (the_topic st, select_sample (the_samples st) j)) [0..<0 + m] \<and>
      (fst (send_loop w st fuel 0 0) = None \<longrightarrow> m = fuel)" ..
  have s: "sent (snd (send_loop w st fuel 0 0)) =
      map (\<lambda>j. (the_topic st, select_sample (the_samples st) j)) [0..<m]"
    using mm by simp
  then have len: "length (sent (snd (send_loop w st fuel 0 0))) = m" by simp
  have c1: "sent (snd (send_loop w st fuel 0 0)) =
           map (\<lambda>i. (the_topic st, the_samples st ! (i mod length (the_samples st))))
             [0..<length (sent (snd (send_loop w st fuel 0 0)))]"
    unfolding len using s by (simp add: select_sample_def)
  have c2: "fst (send_loop w st fuel 0 0) = None \<longrightarrow>
            length (sent (snd (send_loop w st fuel 0 0))) = fuel"
    using mm len by simp
  have c3: "fst (loop_iteration w st k i) = Inr j \<longrightarrow> j = i + 1"
    using loop_iteration_shape(2)[OF assms, of w k i j] by simp
  have c4: "select_sample (the_samples st) i =
           select_sample (the_samples st) (i + length (the_samples st))"
    by (simp add: select_sample_def)
  have c5: "main_setup w = (Inr st, evs) \<longrightarrow>
            sent (snd (main fuel w)) = sent (snd (send_loop w st fuel 0 0))"
    using main_sent[of w st evs fuel] by blast
  show ?thesis using c1 c2 c3 c4 c5 by blast
qed

subsection \<open>Send failures\<close>

text \<open>
  C6. In an iteration whose send is acknowledged or raises an \<open>Exception\<close> (a
  \<open>KafkaError\<close> or any other), the iteration calls \<open>producer.send\<close> once, logs one line
  (an error line for a failure) and then calls \<open>time.sleep(send_interval)\<close>: the
  exception does not leave the loop, and what the iteration does next does not depend on
  whether the send succeeded. When that sleep returns (the interval is not negative and
  nothing interrupts it), the loop goes on with the next iteration and the next cursor.
\<close>

theorem send_failure_absorbed:
  assumes "main_setup w = (Inr st, evs)"
    and "absorbed (send_get w k (the_topic st) (select_sample (the_samples st) i))"
  shows "loop_iteration w st k i =
           sleep_then w st k (i + 1)
             [Send (the_topic st) (select_sample (the_samples st) i),
              outcome_log (send_get w k (the_topic st) (select_sample (the_samples st) i))]
       \<and> snd (loop_iteration w st k i) =
           [Send (the_topic st) (select_sample (the_samples st) i),
            outcome_log (send_get w k (the_topic st) (select_sample (the_samples st) i)),
            Sleep (the_interval st)]
       \<and> (0 \<le> the_interval st \<and> sleep_interrupt w k = None \<longrightarrow>
            send_loop w st (Suc fuel) k i =
              emit [Send (the_topic st) (select_sample (the_samples st) i),
                    outcome_log (send_get w k (the_topic st) (select_sample (the_samples st) i)),
                    Sleep (the_interval st)]
                (send_loop w st fuel (Suc k) (i + 1)))"
proof -
  have ne: "the_samples st \<noteq> []" by (rule main_setup_samples(1)[OF assms(1)])
  have p: "the_producer st = Some KafkaProducer" by (rule main_setup_producer[OF assms(1)])
  have it: "loop_iteration w st k i =
           sleep_then w st k (i + 1)
             [Send (the_topic st) (select_sample (the_samples st) i),
              outcome_log (send_get w k (the_topic st) (select_sample (the_samples st) i))]"
    using loop_iteration_absorbed[OF ne p assms(2)] by simp
  have evs: "snd (loop_iteration w st k i) =
           [Send (the_topic st) (select_sample (the_samples st) i),
            outcome_log (send_get w k (the_topic st) (select_sample (the_samples st) i)),
            Sleep (the_interval st)]"
    unfolding it by (simp add: sleep_then_cases)
  have go: "0 \<le> the_interval st \<and> sleep_interrupt w k = None \<longrightarrow>
            send_loop w st (Suc fuel) k i =
              emit [Send (the_topic st) (select_sample (the_samples st) i),
                    outcome_log (send_get w k (the_topic st) (select_sample (the_samples st) i)),
                    Sleep (the_interval st)]
                (send_loop w st fuel (Suc k) (i + 1))"
  proof
    assume "0 \<le> the_interval st \<and> sleep_interrupt w k = None"
    then have "time_sleep w k (the_interval st) = None" by (simp add: time_sleep_def)
    then show "send_loop w st (Suc fuel) k i =
              emit [Send (the_topic st) (select_sample (the_samples st) i),
                    outcome_log (send_get w k (the_topic st) (select_sample (the_samples st) i)),
                    Sleep (the_interval st)]
                (send_loop w st fuel (Suc k) (i + 1))"
      unfolding send_loop.simps it by (simp add: sleep_then_cases)
  qed
  show ?thesis using it evs go by blast
qed

subsection \<open>Leaving the loop\<close>

lemma loop_iteration_slept:
  assumes "the_samples st \<noteq> []" and "the_producer st = Some p"
    and "fst (loop_iteration w st k i) = Inr j"
  shows "time_sleep w k (the_interval st) = None"
proof (cases "send_get w k (the_topic st) (select_sample (the_samples st) i)")
  case (Acked tp part offs)
  then show ?thesis using assms
    by (simp add: loop_iteration_def producer_send_def Let_def sleep_then_cases
        split: option.splits)
next
  case (SendRaises e)
  then show ?thesis using assms
    by (simp add: loop_iteration_def producer_send_def Let_def sleep_then_cases
        split: option.splits if_splits)
qed

text \<open>A sleep that raises in iteration \<open>k + d\<close> ends the loop in that iteration at the latest.\<close>

lemma send_loop_interrupted:
  assumes "the_samples st \<noteq> []" and "the_producer st = Some p"
  shows "time_sleep w (k + d) (the_interval st) \<noteq> None \<Longrightarrow> d < fuel \<Longrightarrow>
           fst (send_loop w st fuel k i) \<noteq> None"
proof (induction fuel arbitrary: k d i)
  case 0
  then show ?case by simp
next
  case (Suc fuel)
  obtain r evs where it: "loop_iteration w st k i = (r, evs)"
    by (cases "loop_iteration w st k i")
  show ?case
  proof (cases r)
    case (Inl e)
    then show ?thesis using it by simp
  next
    case (Inr j)
    then have slept: "time_sleep w k (the_interval st) = None"
      using loop_iteration_slept[OF assms, of w k i j] it by simp
    show ?thesis
    proof (cases d)
      case 0
      then show ?thesis using Suc.prems slept by simp
    next
      case (Suc d')
      then have "fst (send_loop w st fuel (Suc k) j) \<noteq> None"
        using Suc.IH[of "Suc k" d' j] Suc.prems by simp
      then show ?thesis using it Inr by (simp add: emit_def)
    qed
  qed
qed

lemma count_list_append: "count_list (xs @ ys) x = count_list xs x + count_list ys x"
  by (induction xs) simp_all

lemma count_list_absent: "x \<notin> set xs \<Longrightarrow> count_list xs x = 0"
  by (induction xs) auto

lemma dropWhile_absent:
  "x \<notin> set xs \<Longrightarrow> dropWhile (\<lambda>y. y \<noteq> x) (xs @ x # ys) = x # ys"
  by (induction xs) auto

lemma KafkaError_is_Exception: "is_KafkaError e \<Longrightarrow> is_Exception e"
  by (cases e) simp_all

text \<open>An exception of the send that is not an \<open>Exception\<close> leaves the iteration at once.\<close>

lemma loop_iteration_send_leaves:
  assumes "the_samples st \<noteq> []" and "the_producer st = Some p"
    and "send_get w k (the_topic st) (select_sample (the_samples st) i) = SendRaises e"
    and "\<not> is_Exception e"
  shows "loop_iteration w st k i =
           (Inl e, [Send (the_topic st) (select_sample (the_samples st) i)])"
proof -
  have "\<not> is_KafkaError e" using assms(4) KafkaError_is_Exception by blast
  then show ?thesis using assms
    by (simp add: loop_iteration_def producer_send_def Let_def)
qed

lemma send_loop_send_interrupted:
  assumes "the_samples st \<noteq> []" and "the_producer st = Some p" and "\<not> is_Exception e"
  shows "send_get w (k + d) (the_topic st) (select_sample (the_samples st) (i + d)) =
           SendRaises e \<Longrightarrow> d < fuel \<Longrightarrow>
         fst (send_loop w st fuel k i) \<noteq> None"
proof (induction fuel arbitrary: k d i)
  case 0
  then show ?case by simp
next
  case (Suc fuel)
  obtain r evs where it: "loop_iteration w st k i = (r, evs)"
    by (cases "loop_iteration w st k i")
  show ?case
  proof (cases r)
    case (Inl x)
    then show ?thesis using it by simp
  next
    case (Inr j)
    then have j: "j = Suc i"
      using loop_iteration_shape(2)[OF assms(1,2), of w k i j] it by simp
    show ?thesis
    proof (cases d)
      case 0
      then have "loop_iteration w st k i =
           (Inl e, [Send (the_topic st) (select_sample (the_samples st) i)])"
        using loop_iteration_send_leaves[OF assms(1,2) _ assms(3), of w k i] Suc.prems by simp
      then show ?thesis using it Inr by simp
    next
      case (Suc d')
      then have "fst (send_loop w st fuel (Suc k) (Suc i)) \<noteq> None"
        using Suc.IH[of "Suc k" d' "Suc i"] Suc.prems by simp
      then show ?thesis using it Inr j by (simp add: emit_def)
    qed
  qed
qed

text \<open>A loop that has run \<open>a\<close> iterations goes on from iteration \<open>k + a\<close> with cursor \<open>i + a\<close>.\<close>

lemma send_loop_continue:
  assumes "the_samples st \<noteq> []" and "the_producer st = Some p"
  shows "send_loop w st a k i = (None, evs) \<Longrightarrow>
         send_loop w st (a + b) k i = emit evs (send_loop w st b (k + a) (i + a))"
proof (induction a arbitrary: k i evs)
  case 0
  then show ?case by (simp add: emit_def)
next
  case (Suc a)
  obtain r ev1 where it: "loop_iteration w st k i = (r, ev1)"
    by (cases "loop_iteration w st k i")
  obtain x evs' where rest: "send_loop w st a (Suc k) (Suc i) = (x, evs')"
    by (cases "send_loop w st a (Suc k) (Suc i)")
  show ?case
  proof (cases r)
    case (Inl e)
    then show ?thesis using it Suc.prems by simp
  next
    case (Inr j)
    then have j: "j = Suc i"
      using loop_iteration_shape(2)[OF assms, of w k i j] it by simp
    have x: "x = None" and evs: "evs = ev1 @ evs'"
      using Suc.prems it Inr j rest by (simp_all add: emit_def)
    have "send_loop w st (a + b) (Suc k) (Suc i) =
            emit evs' (send_loop w st b (Suc k + a) (Suc i + a))"
      using Suc.IH[of "Suc k" "Suc i" evs'] rest x by simp
    then show ?thesis using it Inr j evs by (simp add: emit_def)
  qed
qed

text \<open>
  C7. The loop has no normal completion: it is left only by an exception. Whenever a
  run of \<open>main\<close> has left the loop, \<open>producer.close\<close> was called exactly once, and
  nothing but the final log line follows it, so no send comes after the close. When the
  exception is a \<open>KeyboardInterrupt\<close>, \<open>main\<close> returns and its last three events are the
  stopping line, the close and the stopped line; any other exception leaves \<open>main\<close>
  after the close. An interrupt of the sleep of iteration \<open>k\<close>, and an interrupt (or any
  other exception that is not an \<open>Exception\<close>) raised by the send of iteration \<open>k\<close>,
  makes every run of more than \<open>k\<close> iterations leave the loop. When the loop has run
  \<open>k\<close> iterations and the interrupt comes in the send of iteration \<open>k\<close>, or in its sleep
  after an absorbed send, \<open>main\<close> returns, and the run is the start-up, those \<open>k\<close>
  iterations, the events of iteration \<open>k\<close> up to the interrupt, the stopping line, the
  close and the stopped line, with nothing sent after the interrupt.
\<close>

theorem connection_closed_once:
  assumes "main_setup w = (Inr st, before)"
  shows "(fst (main fuel w) \<noteq> Running \<longrightarrow>
            count_list (snd (main fuel w)) Close = 1
          \<and> dropWhile (\<lambda>ev. ev \<noteq> Close) (snd (main fuel w)) =
              [Close, Log INFO ProducerStopped])
       \<and> (fst (send_loop w st fuel 0 0) = Some KeyboardInterrupt \<longrightarrow>
            fst (main fuel w) = Exited
          \<and> drop (length (snd (main fuel w)) - 3) (snd (main fuel w)) =
              [Log INFO StoppingProducer, Close, Log INFO ProducerStopped])
       \<and> (fst (send_loop w st fuel 0 0) = Some e \<and> e \<noteq> KeyboardInterrupt \<longrightarrow>
            fst (main fuel w) = Raised e)
       \<and> (sleep_interrupt w k = Some KeyboardInterrupt \<and> k < fuel \<longrightarrow>
            fst (main fuel w) \<noteq> Running)
       \<and> (send_get w k (the_topic st) (select_sample (the_samples st) k) = SendRaises e'
            \<and> \<not> is_Exception e' \<and> k < fuel \<longrightarrow>
            fst (main fuel w) \<noteq> Running)
       \<and> (fst (send_loop w st k 0 0) = None
            \<and> send_get w k (the_topic st) (select_sample (the_samples st) k) =
                SendRaises KeyboardInterrupt
            \<and> k < fuel \<longrightarrow>
            main fuel w =
              (Exited,
               before @ snd (send_loop w st k 0 0) @
               [Send (the_topic st) (select_sample (the_samples st) k),
                Log INFO StoppingProducer, Close, Log INFO ProducerStopped]))
       \<and> (fst (send_loop w st k 0 0) = None
            \<and> absorbed (send_get w k (the_topic st) (select_sample (the_samples st) k))
            \<and> 0 \<le> the_interval st \<and> sleep_interrupt w k = Some KeyboardInterrupt
            \<and> k < fuel \<longrightarrow>
            main fuel w =
              (Exited,
               before @ snd (send_loop w st k 0 0) @
               [Send (the_topic st) (select_sample (the_samples st) k),
                outcome_log (send_get w k (the_topic st) (select_sample (the_samples st) k)),
                Sleep (the_interval st),
                Log INFO StoppingProducer, Close, Log INFO ProducerStopped]))"
proof -
  have ne: "the_samples st \<noteq> []" by (rule main_setup_samples(1)[OF assms])
  have p: "the_producer st = Some KafkaProducer" by (rule main_setup_producer[OF assms])
  obtain x looping where l: "send_loop w st fuel 0 0 = (x, looping)"
    by (cases "send_loop w st fuel 0 0")
  have nb: "Close \<notin> set before"
    using main_setup_quiet[of w] assms by (simp add: quiet_not_close)
  have nl: "Close \<notin> set looping"
    using send_loop_quiet_but_sends[OF ne p, of w fuel 0 0] l by simp
  have left: "main fuel w =
           (if x' = KeyboardInterrupt then Exited else Raised x',
            (before @ looping @
              (if x' = KeyboardInterrupt then [Log INFO StoppingProducer] else []))
              @ [Close, Log INFO ProducerStopped])" if "x = Some x'" for x'
    using main_left_loop[OF assms, of fuel x' looping] l that by simp
  have c1: "fst (main fuel w) \<noteq> Running \<longrightarrow>
            count_list (snd (main fuel w)) Close = 1
          \<and> dropWhile (\<lambda>ev. ev \<noteq> Close) (snd (main fuel w)) =
              [Close, Log INFO ProducerStopped]"
  proof
    assume nr: "fst (main fuel w) \<noteq> Running"
    then obtain x' where x': "x = Some x'"
      using main_running[OF assms, of fuel looping] l by (cases x) auto
    let ?pre = "before @ looping @
              (if x' = KeyboardInterrupt then [Log INFO StoppingProducer] else [])"
    have np: "Close \<notin> set ?pre" using nb nl by simp
    have tr: "snd (main fuel w) = ?pre @ [Close, Log INFO ProducerStopped]"
      using left[OF x'] by simp
    have "count_list (?pre @ [Close, Log INFO ProducerStopped]) Close = 1"
      using count_list_absent[OF np] by (simp only: count_list_append) simp
    moreover have "dropWhile (\<lambda>ev. ev \<noteq> Close) (?pre @ [Close, Log INFO ProducerStopped]) =
        [Close, Log INFO ProducerStopped]"
      using np by (rule dropWhile_absent)
    ultimately show "count_list (snd (main fuel w)) Close = 1
          \<and> dropWhile (\<lambda>ev. ev \<noteq> Close) (snd (main fuel w)) =
              [Close, Log INFO ProducerStopped]"
      unfolding tr by blast
  qed
  have c2: "fst (send_loop w st fuel 0 0) = Some KeyboardInterrupt \<longrightarrow>
            fst (main fuel w) = Exited
          \<and> drop (length (snd (main fuel w)) - 3) (snd (main fuel w)) =
              [Log INFO StoppingProducer, Close, Log INFO ProducerStopped]"
  proof
    assume "fst (send_loop w st fuel 0 0) = Some KeyboardInterrupt"
    then have "x = Some KeyboardInterrupt" using l by simp
    from left[OF this] show "fst (main fuel w) = Exited
          \<and> drop (length (snd (main fuel w)) - 3) (snd (main fuel w)) =
              [Log INFO StoppingProducer, Close, Log INFO ProducerStopped]"
      by simp
  qed
  have c3: "fst (send_loop w st fuel 0 0) = Some e \<and> e \<noteq> KeyboardInterrupt \<longrightarrow>
            fst (main fuel w) = Raised e"
  proof
    assume a: "fst (send_loop w st fuel 0 0) = Some e \<and> e \<noteq> KeyboardInterrupt"
    then have "x = Some e" using l by simp
    from left[OF this] a show "fst (main fuel w) = Raised e" by simp
  qed
  have c4: "sleep_interrupt w k = Some KeyboardInterrupt \<and> k < fuel \<longrightarrow>
            fst (main fuel w) \<noteq> Running"
  proof
    assume a: "sleep_interrupt w k = Some KeyboardInterrupt \<and> k < fuel"
    then have "time_sleep w (0 + k) (the_interval st) \<noteq> None"
      by (simp add: time_sleep_def)
    then have "fst (send_loop w st fuel 0 0) \<noteq> None"
      using send_loop_interrupted[OF ne p, of w 0 k fuel 0] a by blast
    then obtain x' where "x = Some x'" using l by (cases x) auto
    from left[OF this] show "fst (main fuel w) \<noteq> Running" by simp
  qed
  have c5: "send_get w k (the_topic st) (select_sample (the_samples st) k) = SendRaises e'
            \<and> \<not> is_Exception e' \<and> k < fuel \<longrightarrow>
            fst (main fuel w) \<noteq> Running"
  proof
    assume a: "send_get w k (the_topic st) (select_sample (the_samples st) k) = SendRaises e'
            \<and> \<not> is_Exception e' \<and> k < fuel"
    then have "send_get w (0 + k) (the_topic st) (select_sample (the_samples st) (0 + k)) =
        SendRaises e'"
      by simp
    then have "fst (send_loop w st fuel 0 0) \<noteq> None"
      using send_loop_send_interrupted[OF ne p, of e' w 0 k 0 fuel] a by blast
    then obtain x' where "x = Some x'" using l by (cases x) auto
    from left[OF this] show "fst (main fuel w) \<noteq> Running" by simp
  qed
  have split_fuel: "send_loop w st fuel 0 0 =
      emit (snd (send_loop w st k 0 0)) (send_loop w st (Suc (fuel - Suc k)) k k)"
    if "fst (send_loop w st k 0 0) = None" and "k < fuel"
  proof -
    have "send_loop w st k 0 0 = (None, snd (send_loop w st k 0 0))"
      using that(1) by (cases "send_loop w st k 0 0") simp
    then have "send_loop w st (k + Suc (fuel - Suc k)) 0 0 =
        emit (snd (send_loop w st k 0 0)) (send_loop w st (Suc (fuel - Suc k)) (0 + k) (0 + k))"
      by (rule send_loop_continue[OF ne p])
    moreover have "k + Suc (fuel - Suc k) = fuel" using that(2) by simp
    ultimately show ?thesis by simp
  qed
  have c6: "fst (send_loop w st k 0 0) = None
            \<and> send_get w k (the_topic st) (select_sample (the_samples st) k) =
                SendRaises KeyboardInterrupt
            \<and> k < fuel \<longrightarrow>
            main fuel w =
              (Exited,
               before @ snd (send_loop w st k 0 0) @
               [Send (the_topic st) (select_sample (the_samples st) k),
                Log INFO StoppingProducer, Close, Log INFO ProducerStopped])"
  proof
    assume a: "fst (send_loop w st k 0 0) = None
            \<and> send_get w k (the_topic st) (select_sample (the_samples st) k) =
                SendRaises KeyboardInterrupt
            \<and> k < fuel"
    have it: "loop_iteration w st k k =
        (Inl KeyboardInterrupt, [Send (the_topic st) (select_sample (the_samples st) k)])"
      using loop_iteration_send_leaves[OF ne p, of w k k KeyboardInterrupt] a by simp
    have "send_loop w st fuel 0 0 =
        (Some KeyboardInterrupt,
         snd (send_loop w st k 0 0) @ [Send (the_topic st) (select_sample (the_samples st) k)])"
      using split_fuel a it by (simp add: emit_def)
    then show "main fuel w =
              (Exited,
               before @ snd (send_loop w st k 0 0) @
               [Send (the_topic st) (select_sample (the_samples st) k),
                Log INFO StoppingProducer, Close, Log INFO ProducerStopped])"
      using main_left_loop[OF assms, of fuel KeyboardInterrupt] by simp
  qed
  have c7: "fst (send_loop w st k 0 0) = None
            \<and> absorbed (send_get w k (the_topic st) (select_sample (the_samples st) k))
            \<and> 0 \<le> the_interval st \<and> sleep_interrupt w k = Some KeyboardInterrupt
            \<and> k < fuel \<longrightarrow>
            main fuel w =
              (Exited,
               before @ snd (send_loop w st k 0 0) @
               [Send (the_topic st) (select_sample (the_samples st) k),
                outcome_log (send_get w k (the_topic st) (select_sample (the_samples st) k)),
                Sleep (the_interval st),
                Log INFO StoppingProducer, Close, Log INFO ProducerStopped])"
  proof
    assume a: "fst (send_loop w st k 0 0) = None
            \<and> absorbed (send_get w k (the_topic st) (select_sample (the_samples st) k))
            \<and> 0 \<le> the_interval st \<and> sleep_interrupt w k = Some KeyboardInterrupt
            \<and> k < fuel"
    then have ts: "time_sleep w k (the_interval st) = Some KeyboardInterrupt"
      by (simp add: time_sleep_def)
    have it: "loop_iteration w st k k =
        (Inl KeyboardInterrupt,
         [Send (the_topic st) (select_sample (the_samples st) k),
          outcome_log (send_get w k (the_topic st) (select_sample (the_samples st) k)),
          Sleep (the_interval st)])"
      using loop_iteration_absorbed[OF ne p, of w k k] a ts by (simp add: sleep_then_cases)
    have "send_loop w st fuel 0 0 =
        (Some KeyboardInterrupt,
         snd (send_loop w st k 0 0) @
         [Send (the_topic st) (select_sample (the_samples st) k),
          outcome_log (send_get w k (the_topic st) (select_sample (the_samples st) k)),
          Sleep (the_interval st)])"
      using split_fuel a it by (simp add: emit_def)
    then show "main fuel w =
              (Exited,
               before @ snd (send_loop w st k 0 0) @
               [Send (the_topic st) (select_sample (the_samples st) k),
                outcome_log (send_get w k (the_topic st) (select_sample (the_samples st) k)),
                Sleep (the_interval st),
                Log INFO StoppingProducer, Close, Log INFO ProducerStopped])"
      using main_left_loop[OF assms, of fuel KeyboardInterrupt] by simp
  qed
  show ?thesis using c1 c2 c3 c4 c5 c6 c7 by blast
qed

subsection \<open>The sample list is never empty, and its elements are text\<close>

text \<open>
  C9. After a completed start-up the sample list is not empty; the loop takes it as a
  value that no iteration changes. No run of \<open>main\<close> logs the warning of the
  empty-samples branch, and every iteration begins by sending the sample under the
  cursor.
\<close>

theorem samples_never_empty:
  assumes "main_setup w = (Inr st, evs)"
  shows "the_samples st \<noteq> []
       \<and> Log WARNING NoSamplesAvailable \<notin> set (snd (main fuel w))
       \<and> snd (loop_iteration w st k i) \<noteq> []
       \<and> hd (snd (loop_iteration w st k i)) =
           Send (the_topic st) (select_sample (the_samples st) i)"
proof -
  have ne: "the_samples st \<noteq> []" by (rule main_setup_samples(1)[OF assms])
  have p: "the_producer st = Some KafkaProducer" by (rule main_setup_producer[OF assms])
  obtain x looping where l: "send_loop w st fuel 0 0 = (x, looping)"
    by (cases "send_loop w st fuel 0 0")
  have nb: "Log WARNING NoSamplesAvailable \<notin> set evs"
    using main_setup_quiet[of w] assms by (simp add: quiet_not_empty_warning)
  have nl: "Log WARNING NoSamplesAvailable \<notin> set looping"
    using send_loop_quiet_but_sends[OF ne p, of w fuel 0 0] l by simp
  have w: "Log WARNING NoSamplesAvailable \<notin> set (snd (main fuel w))"
  proof (cases x)
    case None
    then show ?thesis using main_running[OF assms, of fuel looping] l nb nl by simp
  next
    case (Some e)
    then show ?thesis using main_left_loop[OF assms, of fuel e looping] l nb nl by simp
  qed
  from loop_iteration_shape(1)[OF ne p, of w k i] obtain rest where
    "snd (loop_iteration w st k i) =
       Send (the_topic st) (select_sample (the_samples st) i) # rest \<and> list_all quiet rest" ..
  then have "snd (loop_iteration w st k i) \<noteq> []"
    and "hd (snd (loop_iteration w st k i)) =
           Send (the_topic st) (select_sample (the_samples st) i)"
    by simp_all
  then show ?thesis using ne w by blast
qed

lemma value_serializer_text: "is_str v \<Longrightarrow> value_serializer v = encode_utf8 (text_of v)"
  by (cases v) (simp_all add: value_serializer_def)

text \<open>
  C10. After a completed start-up every sample is a string, and every value a run of
  \<open>main\<close> hands to \<open>producer.send\<close> is a string, on which the value serialiser takes
  its first branch: the result is the UTF-8 encoding of the text itself.
\<close>

theorem payloads_are_text:
  assumes "main_setup w = (Inr st, evs)"
  shows "list_all is_str (the_samples st)
       \<and> (\<forall>tv \<in> set (sent (snd (main fuel w))).
            is_str (snd tv) \<and> value_serializer (snd tv) = encode_utf8 (text_of (snd tv)))"
proof -
  have ne: "the_samples st \<noteq> []" by (rule main_setup_samples(1)[OF assms])
  have p: "the_producer st = Some KafkaProducer" by (rule main_setup_producer[OF assms])
  have strs: "list_all is_str (the_samples st)" by (rule main_setup_samples(2)[OF assms])
  from send_loop_sent[OF ne p, of fuel w 0 0] obtain m where mm: "m \<le> fuel \<and>
      sent (snd (send_loop w st fuel 0 0)) =
        map (\<lambda>j. (the_topic st, select_sample (the_samples st) j)) [0..<0 + m] \<and>
      (fst (send_loop w st fuel 0 0) = None \<longrightarrow> m = fuel)" ..
  have s: "sent (snd (main fuel w)) =
      map (\<lambda>j. (the_topic st, select_sample (the_samples st) j)) [0..<m]"
    using mm main_sent[OF assms, of fuel] by simp
  have sel: "is_str (select_sample (the_samples st) j)" for j
  proof -
    have "select_sample (the_samples st) j \<in> set (the_samples st)"
      using ne by (simp add: select_sample_def)
    then show ?thesis using strs by (simp add: list_all_iff)
  qed
  have "\<forall>tv \<in> set (sent (snd (main fuel w))).
            is_str (snd tv) \<and> value_serializer (snd tv) = encode_utf8 (text_of (snd tv))"
    unfolding s using sel by (auto simp: value_serializer_text)
  then show ?thesis using strs by blast
qed

subsection \<open>The cloud-auth variables\<close>

lemma create_producer_loop_env:
  "new_producer w' = new_producer w \<Longrightarrow>
     create_producer_loop w' s xs = create_producer_loop w s xs"
  by (induction xs) (simp_all split: option.splits)

lemma load_files_env:
  "json_loads w' = json_loads w \<Longrightarrow> load_files w' dir es acc = load_files w dir es acc"
proof (induction es arbitrary: acc)
  case Nil
  show ?case by simp
next
  case (Cons entry es)
  obtain name rd where "entry = (name, rd)" by (cases entry)
  then show ?case using Cons by (cases rd) (simp_all add: Let_def split: option.splits)
qed

lemma loop_iteration_env:
  assumes "send_get w' = send_get w" and "sleep_interrupt w' = sleep_interrupt w"
  shows "loop_iteration w' st k i = loop_iteration w st k i"
proof -
  have s: "sleep_then w' st k j evs = sleep_then w st k j evs" for j evs
    using assms by (simp add: sleep_then_def time_sleep_def)
  have p: "producer_send w' k q tp v = producer_send w k q tp v" for q tp v
    using assms by (simp add: producer_send_def split: option.splits)
  show ?thesis unfolding loop_iteration_def s p ..
qed

lemma send_loop_env:
  assumes "send_get w' = send_get w" and "sleep_interrupt w' = sleep_interrupt w"
  shows "send_loop w' st fuel k i = send_loop w st fuel k i"
proof (induction fuel arbitrary: k i)
  case 0
  show ?case by simp
next
  case (Suc fuel)
  show ?case unfolding send_loop.simps loop_iteration_env[OF assms] Suc.IH ..
qed

text \<open>The result of the start-up, without its log.\<close>

lemma main_setup_fst:
  "fst (main_setup w) =
     (case int_of_str w (getenv_default w ''SEND_INTERVAL_SECONDS'' ''10'') of
        Inl e \<Rightarrow> Inl e
      | Inr interval \<Rightarrow>
          (case fst (create_producer w) of
             Inl e \<Rightarrow> Inl e
           | Inr p \<Rightarrow>
               (case fst (load_fhir_samples w
                            (getenv_default w ''FHIR_SAMPLES_PATH'' ''/app/samples'')) of
                  Inl e \<Rightarrow> Inl e
                | Inr loaded \<Rightarrow>
                    Inr \<lparr>the_topic = getenv_default w ''KAFKA_TOPIC'' ''fhir-resources'',
                         the_interval = interval,
                         the_producer = p,
                         the_samples =
                           (if loaded = []
                            then map (\<lambda>sample. PStr (json_dumps sample))
                                   generate_sample_fhir_resources
                            else loaded)\<rparr>)))"
proof (cases "int_of_str w (getenv_default w ''SEND_INTERVAL_SECONDS'' ''10'')")
  case (Inl e)
  then show ?thesis by (simp add: main_setup_def)
next
  case (Inr interval)
  note i = Inr
  obtain r1 connecting where c: "create_producer w = (r1, connecting)"
    by (cases "create_producer w")
  show ?thesis
  proof (cases r1)
    case (Inl e)
    then show ?thesis using i c by (simp add: main_setup_def Let_def)
  next
    case (Inr p)
    note p = Inr
    obtain r2 loading where
      l: "load_fhir_samples w (getenv_default w ''FHIR_SAMPLES_PATH'' ''/app/samples'') =
            (r2, loading)"
      by (cases "load_fhir_samples w (getenv_default w ''FHIR_SAMPLES_PATH'' ''/app/samples'')")
    show ?thesis
    proof (cases r2)
      case (Inl e)
      then show ?thesis using i c p l by (simp add: main_setup_def Let_def)
    next
      case (Inr loaded)
      then show ?thesis using i c p l
        by (cases "loaded = []") (simp_all add: main_setup_def Let_def)
    qed
  qed
qed

lemma main_fst:
  assumes "main_setup w = (Inr st, before)"
  shows "fst (main fuel w) =
           (case fst (send_loop w st fuel 0 0) of
              None \<Rightarrow> Running
            | Some e \<Rightarrow> if e = KeyboardInterrupt then Exited else Raised e)"
proof -
  obtain x looping where l: "send_loop w st fuel 0 0 = (x, looping)"
    by (cases "send_loop w st fuel 0 0")
  show ?thesis
  proof (cases x)
    case None
    then show ?thesis using main_running[OF assms, of fuel looping] l by simp
  next
    case (Some e)
    then show ?thesis using main_left_loop[OF assms, of fuel e looping] l by simp
  qed
qed

text \<open>
  C8. Two runs in worlds that differ only in the values of the variables
  \<open>AZURE_TENANT_ID\<close>, \<open>AZURE_CLIENT_ID\<close>, \<open>AZURE_CLIENT_SECRET\<close>, \<open>AZURE_FHIR_URL\<close> and
  \<open>AZURE_SCOPE\<close> make the same calls of \<open>producer.send\<close>, with the same topics and
  values in the same order, and end in the same way.
\<close>

theorem azure_variables_do_not_alter_sends:
  assumes "\<forall>name. name \<notin> set azure_variables \<longrightarrow> env' name = environ w name"
  shows "sent (snd (main fuel (w\<lparr>environ := env'\<rparr>))) = sent (snd (main fuel w))
       \<and> fst (main fuel (w\<lparr>environ := env'\<rparr>)) = fst (main fuel w)"
proof -
  let ?w' = "w\<lparr>environ := env'\<rparr>"
  have g: "getenv_default ?w' name dflt = getenv_default w name dflt"
    if "name \<notin> set azure_variables" for name dflt
    using assms that by (simp add: getenv_default_def)
  have g1: "getenv_default ?w' ''SEND_INTERVAL_SECONDS'' ''10'' =
            getenv_default w ''SEND_INTERVAL_SECONDS'' ''10''"
    by (rule g) (simp add: azure_variables_def)
  have g2: "getenv_default ?w' ''FHIR_SAMPLES_PATH'' ''/app/samples'' =
            getenv_default w ''FHIR_SAMPLES_PATH'' ''/app/samples''"
    by (rule g) (simp add: azure_variables_def)
  have g3: "getenv_default ?w' ''KAFKA_TOPIC'' ''fhir-resources'' =
            getenv_default w ''KAFKA_TOPIC'' ''fhir-resources''"
    by (rule g) (simp add: azure_variables_def)
  have g4: "getenv_default ?w' ''KAFKA_BOOTSTRAP_SERVERS'' ''localhost:9092'' =
            getenv_default w ''KAFKA_BOOTSTRAP_SERVERS'' ''localhost:9092''"
    by (rule g) (simp add: azure_variables_def)
  have cp: "create_producer ?w' = create_producer w"
    unfolding create_producer_def g4 by (rule create_producer_loop_env) simp
  have ld: "load_fhir_samples ?w' path = load_fhir_samples w path" for path
    by (simp add: load_fhir_samples_def load_files_env[of ?w' w] split: path_state.splits)
  have i: "int_of_str ?w' = int_of_str w" by simp
  have same_setup: "fst (main_setup ?w') = fst (main_setup w)"
    unfolding main_setup_fst g1 g2 g3 cp ld i ..
  have loop: "send_loop ?w' st fuel 0 0 = send_loop w st fuel 0 0" for st
    by (rule send_loop_env) simp_all
  obtain r before where b: "main_setup w = (r, before)" by (cases "main_setup w")
  obtain r' before' where b': "main_setup ?w' = (r', before')" by (cases "main_setup ?w'")
  have r: "r' = r" using same_setup b b' by simp
  show ?thesis
  proof (cases r)
    case (Inl e)
    have q: "sent before = []" "sent before' = []"
      using main_setup_quiet[of w] main_setup_quiet[of ?w'] b b' by (simp_all add: sent_quiet)
    show ?thesis
      using main_failed_setup[of w e before fuel] main_failed_setup[of ?w' e before' fuel]
        b b' r Inl q by simp
  next
    case (Inr st)
    have s: "main_setup w = (Inr st, before)" using b Inr by simp
    have s': "main_setup ?w' = (Inr st, before')" using b' r Inr by simp
    show ?thesis
      unfolding main_sent[OF s] main_sent[OF s'] main_fst[OF s] main_fst[OF s'] loop
      by simp
  qed
qed

subsection \<open>A run of the sample world without a samples directory\<close>

lemma fallback_fields:
  "environ fallback_world = (\<lambda>name. None)"
  "int_of_str fallback_world = sample_int"
  "new_producer fallback_world =
     (\<lambda>n servers. if n < 2 then Some (KafkaError ''NoBrokersAvailable'') else None)"
  "filesystem fallback_world = (\<lambda>path. Missing)"
  "send_get fallback_world =
     (\<lambda>k tp v. if k = 1 then SendRaises (KafkaError ''timed out'') else Acked tp 0 k)"
  "sleep_interrupt fallback_world = (\<lambda>k. if k = 3 then Some KeyboardInterrupt else None)"
  by (simp_all add: fallback_world_def sample_world_def)

lemma sample_int_10: "sample_int ''10'' = Inr 10"
  by (simp add: sample_int_def)

lemma fallback_create_producer: "fst (create_producer fallback_world) = Inr (Some KafkaProducer)"
  by (simp add: create_producer_def getenv_default_def fallback_fields max_retries_def
      upt_conv_Cons emit_def)

lemma fallback_setup: "fst (main_setup fallback_world) = Inr fallback_prepared"
  unfolding main_setup_fst
  by (simp add: getenv_default_def fallback_fields sample_int_10 fallback_create_producer
      load_fhir_samples_def dumps_defaults fallback_prepared_def)

lemma fallback_setup_pair:
  "main_setup fallback_world = (Inr fallback_prepared, snd (main_setup fallback_world))"
  using fallback_setup by (cases "main_setup fallback_world") simp

lemma fallback_select:
  "select_sample (the_samples fallback_prepared) 0 = PStr default_patient_text"
  "select_sample (the_samples fallback_prepared) (Suc 0) = PStr default_observation_text"
  "select_sample (the_samples fallback_prepared) (Suc (Suc 0)) = PStr default_patient_text"
  "select_sample (the_samples fallback_prepared) (Suc (Suc (Suc 0))) =
     PStr default_observation_text"
  by (simp_all add: select_sample_def fallback_prepared_def mod_Suc)

lemma fallback_prepared_fields:
  "the_topic fallback_prepared = ''fhir-resources''"
  "the_interval fallback_prepared = 10"
  "the_producer fallback_prepared = Some KafkaProducer"
  "the_samples fallback_prepared \<noteq> []"
  by (simp_all add: fallback_prepared_def)

lemma fallback_loop:
  "send_loop fallback_world fallback_prepared (Suc (Suc (Suc (Suc 0)))) 0 0 =
     (Some KeyboardInterrupt,
      [Send ''fhir-resources'' (PStr default_patient_text),
       Log INFO (SentTo ''fhir-resources'' 0 0),
       Sleep 10,
       Send ''fhir-resources'' (PStr default_observation_text),
       Log ERROR (FailedToSend (KafkaError ''timed out'')),
       Sleep 10,
       Send ''fhir-resources'' (PStr default_patient_text),
       Log INFO (SentTo ''fhir-resources'' 0 2),
       Sleep 10,
       Send ''fhir-resources'' (PStr default_observation_text),
       Log INFO (SentTo ''fhir-resources'' 0 3),
       Sleep 10])"
  by (simp add: loop_iteration_def producer_send_def sleep_then_def time_sleep_def
      fallback_select fallback_prepared_fields fallback_fields emit_def)

lemma four: "(4::nat) = Suc (Suc (Suc (Suc 0)))"
  by simp

lemma fallback_run:
  "fst (main 4 fallback_world) = Exited"
  "sent (snd (main 4 fallback_world)) =
     [(''fhir-resources'', PStr default_patient_text),
      (''fhir-resources'', PStr default_observation_text),
      (''fhir-resources'', PStr default_patient_text),
      (''fhir-resources'', PStr default_observation_text)]"
  unfolding main_fst[OF fallback_setup_pair] main_sent[OF fallback_setup_pair] four
    fallback_loop
  by simp_all

lemma interrupted_send_fields:
  "environ interrupted_send_world = (\<lambda>name. None)"
  "int_of_str interrupted_send_world = sample_int"
  "new_producer interrupted_send_world =
     (\<lambda>n servers. if n < 2 then Some (KafkaError ''NoBrokersAvailable'') else None)"
  "filesystem interrupted_send_world = (\<lambda>path. Missing)"
  "send_get interrupted_send_world =
     (\<lambda>k tp v. if k = 1 then SendRaises KeyboardInterrupt else Acked tp 0 k)"
  "sleep_interrupt interrupted_send_world =
     (\<lambda>k. if k = 3 then Some KeyboardInterrupt else None)"
  by (simp_all add: interrupted_send_world_def fallback_fields)

lemma interrupted_send_create_producer:
  "fst (create_producer interrupted_send_world) = Inr (Some KafkaProducer)"
  by (simp add: create_producer_def getenv_default_def interrupted_send_fields max_retries_def
      upt_conv_Cons emit_def)

lemma interrupted_send_setup:
  "main_setup interrupted_send_world =
     (Inr fallback_prepared, snd (main_setup interrupted_send_world))"
proof -
  have "fst (main_setup interrupted_send_world) = Inr fallback_prepared"
    unfolding main_setup_fst
    by (simp add: getenv_default_def interrupted_send_fields sample_int_10
        interrupted_send_create_producer load_fhir_samples_def dumps_defaults
        fallback_prepared_def)
  then show ?thesis by (cases "main_setup interrupted_send_world") simp
qed

lemma interrupted_send_first_iteration:
  "send_loop interrupted_send_world fallback_prepared (Suc 0) 0 0 =
     (None,
      [Send ''fhir-resources'' (PStr default_patient_text),
       Log INFO (SentTo ''fhir-resources'' 0 0),
       Sleep 10])"
  by (simp add: loop_iteration_def producer_send_def sleep_then_def time_sleep_def
      fallback_select fallback_prepared_fields interrupted_send_fields emit_def)

subsection \<open>The properties on that run\<close>

theorem fallback_payloads_witness:
  "fst (main_setup fallback_world) = Inr fallback_prepared
   \<and> filesystem fallback_world ''/app/samples'' = Missing
   \<and> fst (load_fhir_samples fallback_world ''/app/samples'') = Inr []
   \<and> the_samples fallback_prepared =
       [PStr default_patient_text, PStr default_observation_text]"
proof -
  have path: "''/app/samples'' = getenv_default fallback_world ''FHIR_SAMPLES_PATH'' ''/app/samples''"
    by (simp add: getenv_default_def fallback_fields)
  note t = fallback_payloads[OF fallback_setup_pair path, of "[]"]
  have missing: "filesystem fallback_world ''/app/samples'' = Missing"
    by (simp add: fallback_fields)
  then have empty: "fst (load_fhir_samples fallback_world ''/app/samples'') = Inr []"
    using t by blast
  then have "the_samples fallback_prepared =
       [PStr default_patient_text, PStr default_observation_text]"
    using t by blast
  then show ?thesis using fallback_setup missing empty by blast
qed

theorem round_robin_witness:
  "the_samples fallback_prepared = [PStr default_patient_text, PStr default_observation_text]
   \<and> sent (snd (send_loop fallback_world fallback_prepared 4 0 0)) =
       [(''fhir-resources'', PStr default_patient_text),
        (''fhir-resources'', PStr default_observation_text),
        (''fhir-resources'', PStr default_patient_text),
        (''fhir-resources'', PStr default_observation_text)]
   \<and> sent (snd (main 4 fallback_world)) =
       sent (snd (send_loop fallback_world fallback_prepared 4 0 0))
   \<and> select_sample (the_samples fallback_prepared) 1 =
       select_sample (the_samples fallback_prepared) 3"
proof -
  note t = round_robin[OF fallback_prepared_fields(4) fallback_prepared_fields(3),
      of fallback_world 4 0 1 0 "snd (main_setup fallback_world)"]
  have len: "length (sent (snd (send_loop fallback_world fallback_prepared 4 0 0))) = 4"
    unfolding four fallback_loop by simp
  have two: "length (the_samples fallback_prepared) = 2"
    by (simp add: fallback_prepared_def)
  have three: "(1::nat) + 2 = 3" by simp
  have u: "[0..<4] = [0, 1, 2, 3]" by (simp add: upt_conv_Cons)
  have "sent (snd (send_loop fallback_world fallback_prepared 4 0 0)) =
           map (\<lambda>i. (the_topic fallback_prepared, the_samples fallback_prepared ! (i mod 2)))
             [0..<4]"
    using t len two by simp
  then have s: "sent (snd (send_loop fallback_world fallback_prepared 4 0 0)) =
       [(''fhir-resources'', PStr default_patient_text),
        (''fhir-resources'', PStr default_observation_text),
        (''fhir-resources'', PStr default_patient_text),
        (''fhir-resources'', PStr default_observation_text)]"
    unfolding u by (simp add: fallback_prepared_def)
  have "select_sample (the_samples fallback_prepared) 1 =
       select_sample (the_samples fallback_prepared) (1 + length (the_samples fallback_prepared))"
    using t by blast
  then have p: "select_sample (the_samples fallback_prepared) 1 =
       select_sample (the_samples fallback_prepared) 3"
    unfolding two by (simp only: three)
  have m: "sent (snd (main 4 fallback_world)) =
       sent (snd (send_loop fallback_world fallback_prepared 4 0 0))"
    using t fallback_setup_pair by blast
  have l: "the_samples fallback_prepared =
      [PStr default_patient_text, PStr default_observation_text]"
    by (simp add: fallback_prepared_def)
  show ?thesis using l s m p by blast
qed

theorem send_failure_absorbed_witness:
  "send_get fallback_world 1 ''fhir-resources'' (PStr default_observation_text) =
     SendRaises (KafkaError ''timed out'')
   \<and> loop_iteration fallback_world fallback_prepared 1 1 =
     (Inr 2,
      [Send ''fhir-resources'' (PStr default_observation_text),
       Log ERROR (FailedToSend (KafkaError ''timed out'')),
       Sleep 10])"
proof -
  have sel: "select_sample (the_samples fallback_prepared) 1 = PStr default_observation_text"
    using fallback_select(2) by simp
  have out: "send_get fallback_world 1 ''fhir-resources'' (PStr default_observation_text) =
     SendRaises (KafkaError ''timed out'')"
    by (simp add: fallback_fields)
  have a: "absorbed (send_get fallback_world 1 (the_topic fallback_prepared)
                       (select_sample (the_samples fallback_prepared) 1))"
    unfolding sel fallback_prepared_fields out by simp
  note t = send_failure_absorbed[OF fallback_setup_pair a, of 0]
  have "loop_iteration fallback_world fallback_prepared 1 1 =
           sleep_then fallback_world fallback_prepared 1 (1 + 1)
             [Send (the_topic fallback_prepared) (select_sample (the_samples fallback_prepared) 1),
              outcome_log (send_get fallback_world 1 (the_topic fallback_prepared)
                 (select_sample (the_samples fallback_prepared) 1))]"
    using t by blast
  then have "loop_iteration fallback_world fallback_prepared 1 1 =
     (Inr 2,
      [Send ''fhir-resources'' (PStr default_observation_text),
       Log ERROR (FailedToSend (KafkaError ''timed out'')),
       Sleep 10])"
    unfolding sel fallback_prepared_fields out
    by (simp add: sleep_then_def time_sleep_def fallback_prepared_fields fallback_fields)
  then show ?thesis using out by blast
qed

theorem connection_closed_once_witness:
  "fst (main 4 fallback_world) = Exited
   \<and> count_list (snd (main 4 fallback_world)) Close = 1
   \<and> dropWhile (\<lambda>ev. ev \<noteq> Close) (snd (main 4 fallback_world)) =
       [Close, Log INFO ProducerStopped]
   \<and> drop (length (snd (main 4 fallback_world)) - 3) (snd (main 4 fallback_world)) =
       [Log INFO StoppingProducer, Close, Log INFO ProducerStopped]
   \<and> send_get interrupted_send_world 1 ''fhir-resources'' (PStr default_observation_text) =
       SendRaises KeyboardInterrupt
   \<and> fst (main 4 interrupted_send_world) = Exited
   \<and> drop (length (snd (main 4 interrupted_send_world)) - 7)
        (snd (main 4 interrupted_send_world)) =
       [Send ''fhir-resources'' (PStr default_patient_text),
        Log INFO (SentTo ''fhir-resources'' 0 0),
        Sleep 10,
        Send ''fhir-resources'' (PStr default_observation_text),
        Log INFO StoppingProducer, Close, Log INFO ProducerStopped]"
proof -
  note t = connection_closed_once[OF fallback_setup_pair, of 4 KeyboardInterrupt 3]
  have left: "fst (main 4 fallback_world) \<noteq> Running"
    by (simp add: fallback_run)
  have intr: "fst (send_loop fallback_world fallback_prepared 4 0 0) = Some KeyboardInterrupt"
    unfolding four fallback_loop by simp
  have a: "count_list (snd (main 4 fallback_world)) Close = 1
      \<and> dropWhile (\<lambda>ev. ev \<noteq> Close) (snd (main 4 fallback_world)) =
          [Close, Log INFO ProducerStopped]"
    using t left by blast
  have b: "fst (main 4 fallback_world) = Exited
      \<and> drop (length (snd (main 4 fallback_world)) - 3) (snd (main 4 fallback_world)) =
          [Log INFO StoppingProducer, Close, Log INFO ProducerStopped]"
    using t intr by blast
  note u = connection_closed_once[OF interrupted_send_setup, of 4 KeyboardInterrupt 1]
  have first: "fst (send_loop interrupted_send_world fallback_prepared 1 0 0) = None"
    using interrupted_send_first_iteration by simp
  have evs: "snd (send_loop interrupted_send_world fallback_prepared 1 0 0) =
      [Send ''fhir-resources'' (PStr default_patient_text),
       Log INFO (SentTo ''fhir-resources'' 0 0),
       Sleep 10]"
    using interrupted_send_first_iteration by simp
  have sel: "select_sample (the_samples fallback_prepared) 1 = PStr default_observation_text"
    using fallback_select(2) by simp
  have raised: "send_get interrupted_send_world 1 ''fhir-resources''
      (PStr default_observation_text) = SendRaises KeyboardInterrupt"
    by (simp add: interrupted_send_fields)
  have h: "fst (send_loop interrupted_send_world fallback_prepared 1 0 0) = None
      \<and> send_get interrupted_send_world 1 (the_topic fallback_prepared)
          (select_sample (the_samples fallback_prepared) 1) = SendRaises KeyboardInterrupt
      \<and> (1::nat) < 4"
    unfolding sel fallback_prepared_fields using first raised by simp
  have "main 4 interrupted_send_world =
      (Exited,
       snd (main_setup interrupted_send_world) @
       snd (send_loop interrupted_send_world fallback_prepared 1 0 0) @
       [Send (the_topic fallback_prepared) (select_sample (the_samples fallback_prepared) 1),
        Log INFO StoppingProducer, Close, Log INFO ProducerStopped])"
    using u h by blast
  then have m: "main 4 interrupted_send_world =
      (Exited,
       snd (main_setup interrupted_send_world) @
       [Send ''fhir-resources'' (PStr default_patient_text),
        Log INFO (SentTo ''fhir-resources'' 0 0),
        Sleep 10,
        Send ''fhir-resources'' (PStr default_observation_text),
        Log INFO StoppingProducer, Close, Log INFO ProducerStopped])"
    unfolding evs sel fallback_prepared_fields by simp
  have c: "fst (main 4 interrupted_send_world) = Exited
      \<and> drop (length (snd (main 4 interrupted_send_world)) - 7)
           (snd (main 4 interrupted_send_world)) =
          [Send ''fhir-resources'' (PStr default_patient_text),
           Log INFO (SentTo ''fhir-resources'' 0 0),
           Sleep 10,
           Send ''fhir-resources'' (PStr default_observation_text),
           Log INFO StoppingProducer, Close, Log INFO ProducerStopped]"
    unfolding m by simp
  show ?thesis using a b c raised by blast
qed

theorem azure_variables_do_not_alter_sends_witness:
  "azure_environ ''AZURE_FHIR_URL'' \<noteq> environ fallback_world ''AZURE_FHIR_URL''
   \<and> sent (snd (main 4 (fallback_world\<lparr>environ := azure_environ\<rparr>))) =
       sent (snd (main 4 fallback_world))
   \<and> fst (main 4 (fallback_world\<lparr>environ := azure_environ\<rparr>)) =
       fst (main 4 fallback_world)"
proof -
  have h: "\<forall>name. name \<notin> set azure_variables \<longrightarrow>
             azure_environ name = environ fallback_world name"
    by (simp add: azure_variables_def azure_environ_def fallback_fields)
  have d: "azure_environ ''AZURE_FHIR_URL'' \<noteq> environ fallback_world ''AZURE_FHIR_URL''"
    by (simp add: azure_environ_def fallback_fields)
  show ?thesis using azure_variables_do_not_alter_sends[OF h, of 4] d by blast
qed

theorem samples_never_empty_witness:
  "the_samples fallback_prepared \<noteq> []
   \<and> Log WARNING NoSamplesAvailable \<notin> set (snd (main 4 fallback_world))
   \<and> hd (snd (loop_iteration fallback_world fallback_prepared 0 0)) =
       Send ''fhir-resources'' (PStr default_patient_text)"
proof -
  note t = samples_never_empty[OF fallback_setup_pair, of 4 0 0]
  have "hd (snd (loop_iteration fallback_world fallback_prepared 0 0)) =
       Send (the_topic fallback_prepared) (select_sample (the_samples fallback_prepared) 0)"
    using t by blast
  then have "hd (snd (loop_iteration fallback_world fallback_prepared 0 0)) =
       Send ''fhir-resources'' (PStr default_patient_text)"
    unfolding fallback_select fallback_prepared_fields .
  then show ?thesis using t by blast
qed

theorem payloads_are_text_witness:
  "(''fhir-resources'', PStr default_observation_text) \<in> set (sent (snd (main 4 fallback_world)))
   \<and> is_str (PStr default_observation_text)
   \<and> value_serializer (PStr default_observation_text) = encode_utf8 default_observation_text
   \<and> list_all is_str (the_samples fallback_prepared)"
proof -
  note t = payloads_are_text[OF fallback_setup_pair, of 4]
  have m: "(''fhir-resources'', PStr default_observation_text)
             \<in> set (sent (snd (main 4 fallback_world)))"
    by (simp add: fallback_run)
  have "is_str (snd (''fhir-resources'', PStr default_observation_text))
      \<and> value_serializer (snd (''fhir-resources'', PStr default_observation_text)) =
         encode_utf8 (text_of (snd (''fhir-resources'', PStr default_observation_text)))"
    using t m by blast
  then have "is_str (PStr default_observation_text)
      \<and> value_serializer (PStr default_observation_text) = encode_utf8 default_observation_text"
    by simp
  then show ?thesis using t m by blast
qed

end
